theory Spec2Isabelle
  imports Complex_Main "HOL-Library.Sublist" "HOL-Library.Multiset" "HOL-Library.List_Lexorder"
begin

section \<open>Array helpers of the host language\<close>

text \<open>
  \<^verbatim>\<open>Array.prototype.sort(cmp)\<close> is a stable sort: \<open>x\<close> stays in front of \<open>y\<close> unless
  \<open>cmp x y > 0\<close>. Insertion from the right end keeps equal elements in input order.
\<close>

fun insort_cmp :: "('a \<Rightarrow> 'a \<Rightarrow> int) \<Rightarrow> 'a \<Rightarrow> 'a list \<Rightarrow> 'a list" where
  "insort_cmp cmp x [] = [x]"
| "insort_cmp cmp x (y # ys) =
     (if cmp x y \<le> 0 then x # y # ys else y # insort_cmp cmp x ys)"

definition sort_cmp :: "('a \<Rightarrow> 'a \<Rightarrow> int) \<Rightarrow> 'a list \<Rightarrow> 'a list" where
  "sort_cmp cmp xs = foldr (insort_cmp cmp) xs []"

text \<open>\<^verbatim>\<open>[...new Set(xs)]\<close>: the distinct elements, each at its first occurrence.\<close>

definition uniq :: "'a list \<Rightarrow> 'a list" where
  "uniq xs = rev (remdups (rev xs))"

text \<open>\<^verbatim>\<open>xs[i] === v\<close>: false when \<open>xs[i]\<close> is undefined.\<close>

definition nth_is :: "'a list \<Rightarrow> nat \<Rightarrow> 'a \<Rightarrow> bool" where
  "nth_is xs i v = (i < length xs \<and> xs ! i = v)"

text \<open>\<^verbatim>\<open>xs.slice(0, n)\<close>: a negative \<open>n\<close> counts from the end of the array.\<close>

definition slice0 :: "'a list \<Rightarrow> int \<Rightarrow> 'a list" where
  "slice0 xs n = (if n < 0 then take (nat (int (length xs) + n)) xs else take (nat n) xs)"

text \<open>
  A JavaScript \<^verbatim>\<open>number\<close> that holds an amount of chips: a rational, with exact arithmetic.
  The code computes in IEEE doubles, which give the same results as long as the operands
  and the result are integers, or halves and quarters of integers, far below \<open>2^53\<close>, as
  in every hand evaluated below. \<^verbatim>\<open>Math.floor\<close> is \<open>\<lfloor>_\<rfloor>\<close>; \<^verbatim>\<open>a % b\<close> is the remainder of
  the division that truncates towards zero, with the sign of \<open>a\<close> (its second operand is
  not zero where the engine uses it).
\<close>

type_synonym number = rat

definition jsTrunc :: "number \<Rightarrow> int" where
  "jsTrunc x = (if x < 0 then \<lceil>x\<rceil> else \<lfloor>x\<rfloor>)"

definition jsRem :: "number \<Rightarrow> number \<Rightarrow> number" where
  "jsRem a b = a - b * of_int (jsTrunc (a / b))"

section \<open>Cards and hands (types/index.ts)\<close>

datatype CardSuit = Hearts | Diamonds | Clubs | Spades

text \<open>\<^verbatim>\<open>CardRank\<close> is a numeric enum: 2 .. 10, Jack = 11, Queen = 12, King = 13, Ace = 14.\<close>

abbreviation (input) Two :: int where "Two \<equiv> 2"

abbreviation (input) Three :: int where "Three \<equiv> 3"

abbreviation (input) Four :: int where "Four \<equiv> 4"

abbreviation (input) Five :: int where "Five \<equiv> 5"

abbreviation (input) Six :: int where "Six \<equiv> 6"

abbreviation (input) Seven :: int where "Seven \<equiv> 7"

abbreviation (input) Eight :: int where "Eight \<equiv> 8"

abbreviation (input) Nine :: int where "Nine \<equiv> 9"

abbreviation (input) Ten :: int where "Ten \<equiv> 10"

abbreviation (input) Jack :: int where "Jack \<equiv> 11"

abbreviation (input) Queen :: int where "Queen \<equiv> 12"

abbreviation (input) King :: int where "King \<equiv> 13"

abbreviation (input) Ace :: int where "Ace \<equiv> 14"

record Card =
  rank :: int
  suit :: CardSuit

definition mkCard :: "int \<Rightarrow> CardSuit \<Rightarrow> Card" where
  "mkCard r s = \<lparr>rank = r, suit = s\<rparr>"

text \<open>\<^verbatim>\<open>HandRank\<close>: HighCard = 1 up to RoyalFlush = 10 (\<open>Pair\<close> is written \<open>OnePair\<close>).\<close>

datatype HandRank =
  HighCard | OnePair | TwoPair | ThreeOfAKind | Straight | Flush | FullHouse
  | FourOfAKind | StraightFlush | RoyalFlush

fun rankValue :: "HandRank \<Rightarrow> int" where
  "rankValue HighCard = 1"
| "rankValue OnePair = 2"
| "rankValue TwoPair = 3"
| "rankValue ThreeOfAKind = 4"
| "rankValue Straight = 5"
| "rankValue Flush = 6"
| "rankValue FullHouse = 7"
| "rankValue FourOfAKind = 8"
| "rankValue StraightFlush = 9"
| "rankValue RoyalFlush = 10"

record Hand =
  handRank :: HandRank
  cards :: "Card list"
  kickers :: "Card list"
  description :: string

datatype Error =
  NeedAtLeast5Cards
  | MustEvaluateExactly5
  | InsufficientCardsInDeck
  | NoActivePlayers
  | InvalidPlayerOrTurn
  | CannotCheck
  | InsufficientChipsToCall
  | MinimumRaiseIs number
  | InsufficientChipsToRaise
  | CallStackExceeded
  | NullBestHand
  | TypeError

section \<open>Hand evaluation (PokerEngine.ts)\<close>

text \<open>
  \<^verbatim>\<open>getCombinations(arr, k)\<close>. On an empty array with \<open>k\<close> neither 1 nor 0 the source
  calls itself with the same arguments without end (the call stack overflows): \<open>None\<close>.
\<close>

fun getCombinations :: "'a list \<Rightarrow> int \<Rightarrow> 'a list list option" where
  "getCombinations [] k =
     (if k = 1 then Some [] else if k = 0 then Some [[]] else None)"
| "getCombinations (first # rest) k =
     (if k = 1 then Some (map (\<lambda>el. [el]) (first # rest))
      else if k = int (length (first # rest)) then Some [first # rest]
      else (case getCombinations rest (k - 1) of
              None \<Rightarrow> None
            | Some withFirst \<Rightarrow>
                (case getCombinations rest k of
                   None \<Rightarrow> None
                 | Some withoutFirst \<Rightarrow>
                     Some (map (\<lambda>combo. first # combo) withFirst @ withoutFirst))))"

fun consecutive :: "int list \<Rightarrow> bool" where
  "consecutive (x # y # rest) = (y = x + 1 \<and> consecutive (y # rest))"
| "consecutive _ = True"

definition isStraight :: "int list \<Rightarrow> bool" where
  "isStraight ranks =
     (let sortedRanks = sort_cmp (\<lambda>a b. a - b) (uniq ranks)
      in if length sortedRanks \<noteq> 5 then False else consecutive sortedRanks)"

definition isWheelStraight :: "int list \<Rightarrow> bool" where
  "isWheelStraight ranks =
     (let uniqueRanks = sort_cmp (\<lambda>a b. a - b) (uniq ranks)
      in length uniqueRanks = 5 \<and>
         nth_is uniqueRanks 0 Two \<and>
         nth_is uniqueRanks 1 Three \<and>
         nth_is uniqueRanks 2 Four \<and>
         nth_is uniqueRanks 3 Five \<and>
         nth_is uniqueRanks 4 Ace)"

definition arrangeWheelStraight :: "Card list \<Rightarrow> Card list" where
  "arrangeWheelStraight cs =
     sort_cmp (\<lambda>a b. if rank a = Ace then 1 else if rank b = Ace then -1 else rank b - rank a) cs"

text \<open>
  \<^verbatim>\<open>countRanks\<close> builds a \<^verbatim>\<open>Record<number, number>\<close>; an object lists its integer keys in
  ascending order. Both users sort what they read from it at once.
\<close>

definition countRanks :: "int list \<Rightarrow> (int \<times> int) list" where
  "countRanks ranks =
     map (\<lambda>r. (r, int (count_list ranks r))) (sort_cmp (\<lambda>a b. a - b) (uniq ranks))"

definition getCount :: "(int \<times> int) list \<Rightarrow> int \<Rightarrow> int" where
  "getCount rankCounts r = (case map_of rankCounts r of Some c \<Rightarrow> c | None \<Rightarrow> 0)"

fun separateLoop ::
  "Card list \<Rightarrow> (int \<times> int) list \<Rightarrow> int list \<Rightarrow> int list \<Rightarrow> nat \<Rightarrow> Card list \<Rightarrow> Card list
     \<Rightarrow> Card list \<times> Card list" where
  "separateLoop cs rankCounts targetCounts [] targetIndex primaryCards kick =
     (primaryCards, kick)"
| "separateLoop cs rankCounts targetCounts (r # rs) targetIndex primaryCards kick =
     (let rankCount = getCount rankCounts r;
          cardsOfRank = filter (\<lambda>c. rank c = r) cs
      in if targetIndex < length targetCounts \<and> rankCount = targetCounts ! targetIndex
         then separateLoop cs rankCounts targetCounts rs (targetIndex + 1)
                (primaryCards @ cardsOfRank) kick
         else separateLoop cs rankCounts targetCounts rs targetIndex
                primaryCards (kick @ cardsOfRank))"

definition separateCardsByRank ::
  "Card list \<Rightarrow> (int \<times> int) list \<Rightarrow> int list \<Rightarrow> Card list \<times> Card list" where
  "separateCardsByRank cs rankCounts targetCounts =
     (let sortedRanks =
            sort_cmp (\<lambda>a b. let countDiff = getCount rankCounts b - getCount rankCounts a
                             in if countDiff \<noteq> 0 then countDiff else b - a)
                     (map fst rankCounts);
          pk = separateLoop cs rankCounts targetCounts sortedRanks 0 [] [];
          primaryCards = sort_cmp (\<lambda>a b. rank b - rank a) (fst pk);
          kick = sort_cmp (\<lambda>a b. rank b - rank a) (snd pk)
      in (primaryCards, slice0 kick (5 - int (length primaryCards))))"

definition mkHand :: "HandRank \<Rightarrow> Card list \<Rightarrow> Card list \<Rightarrow> string \<Rightarrow> Hand" where
  "mkHand r cs ks d = \<lparr>handRank = r, cards = cs, kickers = ks, description = d\<rparr>"

definition evaluateExactHand :: "Card list \<Rightarrow> Error + Hand" where
  "evaluateExactHand cs =
     (if length cs \<noteq> 5 then Inl MustEvaluateExactly5
      else
        let sortedCards = sort_cmp (\<lambda>a b. rank b - rank a) cs;
            ranks = map rank sortedCards;
            suits = map suit sortedCards;
            isFlush = list_all (\<lambda>s. s = hd suits) suits;
            isStraight' = isStraight ranks;
            isWheelStraight' = isWheelStraight ranks;
            rankCounts = countRanks ranks;
            counts = sort_cmp (\<lambda>a b. b - a) (map snd rankCounts)
        in if isFlush \<and> (isStraight' \<or> isWheelStraight') then
             (if hd ranks = Ace \<and> isStraight'
              then Inr (mkHand RoyalFlush sortedCards [] ''Royal Flush'')
              else Inr (mkHand StraightFlush
                     (if isWheelStraight' then arrangeWheelStraight sortedCards else sortedCards)
                     [] ''Straight Flush''))
           else if nth_is counts 0 4 then
             (let pk = separateCardsByRank sortedCards rankCounts [4]
              in Inr (mkHand FourOfAKind (fst pk) (snd pk) ''Four of a Kind''))
           else if nth_is counts 0 3 \<and> nth_is counts 1 2 then
             (let pk = separateCardsByRank sortedCards rankCounts [3, 2]
              in Inr (mkHand FullHouse (fst pk) [] ''Full House''))
           else if isFlush then Inr (mkHand Flush sortedCards [] ''Flush'')
           else if isStraight' \<or> isWheelStraight' then
             Inr (mkHand Straight
                    (if isWheelStraight' then arrangeWheelStraight sortedCards else sortedCards)
                    [] ''Straight'')
           else if nth_is counts 0 3 then
             (let pk = separateCardsByRank sortedCards rankCounts [3]
              in Inr (mkHand ThreeOfAKind (fst pk) (snd pk) ''Three of a Kind''))
           else if nth_is counts 0 2 \<and> nth_is counts 1 2 then
             (let pk = separateCardsByRank sortedCards rankCounts [2, 2]
              in Inr (mkHand TwoPair (fst pk) (snd pk) ''Two Pair''))
           else if nth_is counts 0 2 then
             (let pk = separateCardsByRank sortedCards rankCounts [2]
              in Inr (mkHand OnePair (fst pk) (snd pk) ''Pair''))
           else Inr (mkHand HighCard (slice0 sortedCards 5) [] ''High Card''))"

fun compareCards :: "Card list \<Rightarrow> Card list \<Rightarrow> int" where
  "compareCards (a # as) (b # bs) =
     (if rank a \<noteq> rank b then rank a - rank b else compareCards as bs)"
| "compareCards _ _ = 0"

definition compareHands :: "Hand \<Rightarrow> Hand \<Rightarrow> int" where
  "compareHands hand1 hand2 =
     (if handRank hand1 \<noteq> handRank hand2
      then rankValue (handRank hand1) - rankValue (handRank hand2)
      else compareCards (cards hand1 @ kickers hand1) (cards hand2 @ kickers hand2))"

text \<open>The loop of \<^verbatim>\<open>evaluateHand\<close> over the combinations, \<open>bestHand\<close> starting as null.\<close>

fun bestOfCombinations :: "Hand option \<Rightarrow> Card list list \<Rightarrow> Error + Hand option" where
  "bestOfCombinations bestHand [] = Inr bestHand"
| "bestOfCombinations bestHand (combination # remaining) =
     (case evaluateExactHand combination of
        Inl e \<Rightarrow> Inl e
      | Inr hand \<Rightarrow>
          (case bestHand of
             None \<Rightarrow> bestOfCombinations (Some hand) remaining
           | Some best \<Rightarrow>
               if compareHands hand best > 0 then bestOfCombinations (Some hand) remaining
               else bestOfCombinations bestHand remaining))"

text \<open>
  \<^verbatim>\<open>evaluateHand\<close> ends with \<^verbatim>\<open>return bestHand!\<close>, null when the loop saw no
  combination. That null is written \<open>Inl NullBestHand\<close>; no input produces it
  (lemma \<open>evaluateHand_not_null\<close>).
\<close>

definition evaluateHand :: "Card list \<Rightarrow> Error + Hand" where
  "evaluateHand cs =
     (if length cs < 5 then Inl NeedAtLeast5Cards
      else (case getCombinations cs 5 of
              None \<Rightarrow> Inl CallStackExceeded
            | Some allCombinations \<Rightarrow>
                (case bestOfCombinations None allCombinations of
                   Inl e \<Rightarrow> Inl e
                 | Inr None \<Rightarrow> Inl NullBestHand
                 | Inr (Some bestHand) \<Rightarrow> Inr bestHand)))"

section \<open>Players, game state and rooms (types/index.ts)\<close>

datatype GamePhase = Waiting | PreFlop | Flop | Turn | River | Showdown | HandComplete

datatype PlayerAction = Fold | Check | Call | Raise | AllIn

text \<open>
  The fields of \<^verbatim>\<open>Player\<close> the engine reads or writes; \<open>id\<close> is written \<open>ident\<close>.
  Chip amounts are numbers: nothing in the server makes them integers.
\<close>

record Player =
  ident :: string
  chips :: number
  holeCards :: "Card list"
  isActive :: bool
  isInHand :: bool
  currentBet :: number
  totalBet :: number
  lastAction :: "PlayerAction option"
  isDealer :: bool
  isSmallBlind :: bool
  isBigBlind :: bool
  hasFolded :: bool
  isAllIn :: bool

record GameSettings =
  smallBlind :: number
  bigBlind :: number

text \<open>\<^verbatim>\<open>GameState\<close>; its \<open>currentBet\<close>, the bet of the table, is written \<open>tableCurrentBet\<close>.\<close>

record GameState =
  phase :: GamePhase
  communityCards :: "Card list"
  pot :: number
  currentPlayerIndex :: nat
  dealerIndex :: nat
  smallBlindIndex :: nat
  bigBlindIndex :: nat
  tableCurrentBet :: number
  minRaise :: number
  isHandActive :: bool
  handNumber :: int
  winners :: "string list"

record Room =
  players :: "Player list"
  gameState :: GameState
  settings :: GameSettings

record PlayerActionRequest =
  playerId :: string
  action :: PlayerAction
  amount :: "number option"

datatype GameEvent =
  HandStarted int nat number number
  | PlayerActed string PlayerAction "number option" number number
  | CardsDealt GamePhase "Card list"
  | PhaseChanged GamePhase nat
  | WinnerDetermined "string list" Hand number
  | HandEnded int

section \<open>Turn order (utils/helpers.ts)\<close>

text \<open>The while loop of \<^verbatim>\<open>getNextActivePlayerIndex\<close>, returning \<open>(nextIndex, attempts)\<close>.\<close>

function scanActive :: "(nat \<Rightarrow> bool) \<Rightarrow> nat \<Rightarrow> nat \<Rightarrow> nat \<Rightarrow> nat \<times> nat" where
  "scanActive isActiveCallback playerCount nextIndex attempts =
     (if \<not> isActiveCallback nextIndex \<and> attempts < playerCount
      then scanActive isActiveCallback playerCount ((nextIndex + 1) mod playerCount) (attempts + 1)
      else (nextIndex, attempts))"
  by pat_completeness auto

termination
  by (relation "measure (\<lambda>(cb, playerCount, nextIndex, attempts). playerCount - attempts)") auto

declare scanActive.simps [simp del]

text \<open>
  With \<open>playerCount = 0\<close> the source computes the index NaN and its callers' callbacks
  read a field of \<^verbatim>\<open>players[NaN]\<close>, a TypeError: callers check for the empty list.
\<close>

definition getNextActivePlayerIndex :: "nat \<Rightarrow> nat \<Rightarrow> (nat \<Rightarrow> bool) \<Rightarrow> nat" where
  "getNextActivePlayerIndex currentIndex playerCount isActiveCallback =
     (let r = scanActive isActiveCallback playerCount ((currentIndex + 1) mod playerCount) 0
      in if snd r < playerCount then fst r else currentIndex)"

section \<open>Dealing, winners and the pot (PokerEngine.ts)\<close>

text \<open>
  One round of \<^verbatim>\<open>dealHoleCards\<close>: the players dealt so far keep their card when the deck
  runs out and the source throws (\<open>None\<close> for the deck).
\<close>

fun dealRound :: "Player list \<Rightarrow> Card list \<Rightarrow> Player list \<times> Card list option" where
  "dealRound [] remainingDeck = ([], Some remainingDeck)"
| "dealRound (p # ps) remainingDeck =
     (if isActive p \<and> isInHand p then
        (case remainingDeck of
           [] \<Rightarrow> (p # ps, None)
         | c # d \<Rightarrow>
             (let r = dealRound ps d
              in (p\<lparr>holeCards := holeCards p @ [c]\<rparr> # fst r, snd r)))
      else (let r = dealRound ps remainingDeck in (p # fst r, snd r)))"

text \<open>
  \<^verbatim>\<open>dealHoleCards(room.players.filter(p => p.isActive), deck)\<close>: the filtered array holds
  the same player objects, and the loop tests \<open>isActive\<close> again.
\<close>

definition dealHoleCards :: "Player list \<Rightarrow> Card list \<Rightarrow> Player list \<times> Card list option" where
  "dealHoleCards ps deck =
     (case dealRound ps deck of
        (ps1, None) \<Rightarrow> (ps1, None)
      | (ps1, Some d1) \<Rightarrow> dealRound ps1 d1)"

definition dealCommunityCards ::
  "Card list \<Rightarrow> nat \<Rightarrow> bool \<Rightarrow> Error + (Card list \<times> Card list)" where
  "dealCommunityCards deck numCards burnCard =
     (let remainingDeck = (if burnCard \<and> length deck > 0 then tl deck else deck)
      in if length remainingDeck < numCards then Inl InsufficientCardsInDeck
         else Inr (take numCards remainingDeck, drop numCards remainingDeck))"

text \<open>Players are objects shared by reference: a winner is its index in \<open>room.players\<close>.\<close>

fun evaluateAll :: "Player list \<Rightarrow> Card list \<Rightarrow> nat list \<Rightarrow> Error + (nat \<times> Hand) list" where
  "evaluateAll ps community [] = Inr []"
| "evaluateAll ps community (i # is) =
     (case evaluateHand (holeCards (ps ! i) @ community) of
        Inl e \<Rightarrow> Inl e
      | Inr hand \<Rightarrow>
          (case evaluateAll ps community is of
             Inl e \<Rightarrow> Inl e
           | Inr hands \<Rightarrow> Inr ((i, hand) # hands)))"

fun findBest :: "Hand \<Rightarrow> (nat \<times> Hand) list \<Rightarrow> Hand" where
  "findBest bestHand [] = bestHand"
| "findBest bestHand (ph # phs) =
     (if compareHands (snd ph) bestHand > 0 then findBest (snd ph) phs
      else findBest bestHand phs)"

definition determineWinners :: "Player list \<Rightarrow> Card list \<Rightarrow> Error + (nat list \<times> Hand)" where
  "determineWinners ps community =
     (let activePlayers = filter (\<lambda>i. isInHand (ps ! i)) [0..<length ps]
      in if length activePlayers = 0 then Inl NoActivePlayers
         else if length activePlayers = 1 then
           (case evaluateHand (holeCards (ps ! hd activePlayers) @ community) of
              Inl e \<Rightarrow> Inl e
            | Inr hand \<Rightarrow> Inr (activePlayers, hand))
         else
           (case evaluateAll ps community activePlayers of
              Inl e \<Rightarrow> Inl e
            | Inr playerHands \<Rightarrow>
                (let bestHand = findBest (snd (hd playerHands)) (tl playerHands);
                     winners = map fst (filter (\<lambda>ph. compareHands (snd ph) bestHand = 0) playerHands)
                 in Inr (winners, bestHand))))"

text \<open>The loop of \<^verbatim>\<open>distributePot\<close>: \<open>winners[i].chips += sharePerWinner + extraChip\<close>.\<close>

fun awardChips :: "Player list \<Rightarrow> nat list \<Rightarrow> nat \<Rightarrow> number \<Rightarrow> number \<Rightarrow> Player list" where
  "awardChips ps [] i sharePerWinner remainder = ps"
| "awardChips ps (w # ws) i sharePerWinner remainder =
     (let extraChip = (if of_nat i < remainder then 1 else 0)
      in awardChips (ps[w := (ps ! w)\<lparr>chips := chips (ps ! w) + sharePerWinner + extraChip\<rparr>])
           ws (i + 1) sharePerWinner remainder)"

text \<open>
  \<^verbatim>\<open>distributePot(pot, winners)\<close>: the share is \<^verbatim>\<open>Math.floor(pot / winners.length)\<close>, the
  remainder \<^verbatim>\<open>pot % winners.length\<close>. The result is the remaining pot and the players with
  their chips awarded.
\<close>

definition distributePot :: "number \<Rightarrow> nat list \<Rightarrow> Player list \<Rightarrow> number \<times> Player list" where
  "distributePot potAmount winnerIdx ps =
     (if length winnerIdx = 0 then (potAmount, ps)
      else
        let sharePerWinner = of_int \<lfloor>potAmount / of_nat (length winnerIdx)\<rfloor>;
            remainder = jsRem potAmount (of_nat (length winnerIdx))
        in (0, awardChips ps winnerIdx 0 sharePerWinner remainder))"


section \<open>The hand state machine (GameManager.ts)\<close>

definition postSmallBlind :: "Room \<Rightarrow> Room" where
  "postSmallBlind room =
     (let gs = gameState room; ps = players room
      in if smallBlindIndex gs < length ps \<and> isActive (ps ! smallBlindIndex gs) then
           (let smallBlindPlayer = ps ! smallBlindIndex gs;
                blindAmount = min (smallBlind (settings room)) (chips smallBlindPlayer)
            in room\<lparr>players := ps[smallBlindIndex gs :=
                        smallBlindPlayer\<lparr>chips := chips smallBlindPlayer - blindAmount,
                                         currentBet := blindAmount,
                                         totalBet := blindAmount,
                                         isSmallBlind := True\<rparr>],
                     gameState := gs\<lparr>pot := pot gs + blindAmount\<rparr>\<rparr>)
         else room)"

definition postBigBlind :: "Room \<Rightarrow> Room" where
  "postBigBlind room =
     (let gs = gameState room; ps = players room
      in if bigBlindIndex gs < length ps \<and> isActive (ps ! bigBlindIndex gs) then
           (let bigBlindPlayer = ps ! bigBlindIndex gs;
                blindAmount = min (bigBlind (settings room)) (chips bigBlindPlayer)
            in room\<lparr>players := ps[bigBlindIndex gs :=
                        bigBlindPlayer\<lparr>chips := chips bigBlindPlayer - blindAmount,
                                       currentBet := blindAmount,
                                       totalBet := blindAmount,
                                       isBigBlind := True\<rparr>],
                     gameState := gs\<lparr>pot := pot gs + blindAmount\<rparr>\<rparr>)
         else room)"

definition postBlinds :: "Room \<Rightarrow> Room" where
  "postBlinds room = postBigBlind (postSmallBlind room)"

text \<open>
  The state of a \<^verbatim>\<open>GameManager\<close> serving a room is its private deck and the room. Each
  operation returns what the call returned (\<open>Inl\<close> the error it threw) with the deck and
  the room as the call left them: assignments made before a throw stay.
  \<^verbatim>\<open>createShuffledDeck()\<close> is random: the shuffled deck is an argument.
\<close>

definition startNewHand :: "Card list \<Rightarrow> Room \<Rightarrow> (Error + GameEvent list) \<times> Card list \<times> Room" where
  "startNewHand shuffled room =
     (let ps0 = map (\<lambda>p. if isActive p
                           then p\<lparr>isInHand := True, holeCards := [], currentBet := 0,
                                  totalBet := 0, lastAction := None\<rparr>
                           else p) (players room);
          gs0 = (gameState room)\<lparr>phase := PreFlop, communityCards := [], pot := 0,
                   tableCurrentBet := bigBlind (settings room),
                   minRaise := bigBlind (settings room),
                   isHandActive := True,
                   handNumber := handNumber (gameState room) + 1,
                   winners := []\<rparr>
      in case dealHoleCards ps0 shuffled of
           (ps1, None) \<Rightarrow>
             (Inl InsufficientCardsInDeck, shuffled, room\<lparr>players := ps1, gameState := gs0\<rparr>)
         | (ps1, Some remainingDeck) \<Rightarrow>
             (let room2 = postBlinds (room\<lparr>players := ps1, gameState := gs0\<rparr>);
                  gs2 = gameState room2;
                  ps2 = players room2
              in if length ps2 = 0 then (Inl TypeError, remainingDeck, room2)
                 else
                   (let idx = getNextActivePlayerIndex (bigBlindIndex gs2) (length ps2)
                                (\<lambda>index. isActive (ps2 ! index) \<and> isInHand (ps2 ! index))
                    in (Inr [HandStarted (handNumber gs2) (dealerIndex gs2)
                               (smallBlind (settings room)) (bigBlind (settings room))],
                        remainingDeck,
                        room2\<lparr>gameState := gs2\<lparr>currentPlayerIndex := idx\<rparr>\<rparr>))))"

text \<open>\<^verbatim>\<open>players.find(p => p.id === id)\<close> followed by \<^verbatim>\<open>players.indexOf(player)\<close>.\<close>

fun findIndex :: "('a \<Rightarrow> bool) \<Rightarrow> 'a list \<Rightarrow> nat option" where
  "findIndex P [] = None"
| "findIndex P (x # xs) = (if P x then Some 0 else map_option Suc (findIndex P xs))"

text \<open>
  The switch of \<^verbatim>\<open>processPlayerAction\<close> for the player at index \<open>i\<close>. Every throw of a
  case comes before the first assignment of that case, so \<open>Inl\<close> leaves the room as it
  was. The request's action is one of the five members of the enum (the default branch
  of the switch has no value of the type to reach it); \<^verbatim>\<open>!amount\<close> holds for a missing
  amount and for 0.
\<close>

definition performAction :: "Room \<Rightarrow> nat \<Rightarrow> PlayerActionRequest \<Rightarrow> Error + Room" where
  "performAction room i req =
     (let gs = gameState room; ps = players room; player = ps ! i
      in case action req of
           Fold \<Rightarrow>
             Inr (room\<lparr>players := ps[i := player\<lparr>isInHand := False, lastAction := Some Fold\<rparr>]\<rparr>)
         | Check \<Rightarrow>
             if tableCurrentBet gs > currentBet player then Inl CannotCheck
             else Inr (room\<lparr>players := ps[i := player\<lparr>lastAction := Some Check\<rparr>]\<rparr>)
         | Call \<Rightarrow>
             (let callAmount = tableCurrentBet gs - currentBet player
              in if callAmount > chips player then Inl InsufficientChipsToCall
                 else Inr (room\<lparr>players := ps[i :=
                              player\<lparr>chips := chips player - callAmount,
                                     currentBet := currentBet player + callAmount,
                                     totalBet := totalBet player + callAmount,
                                     lastAction := Some Call\<rparr>],
                            gameState := gs\<lparr>pot := pot gs + callAmount\<rparr>\<rparr>))
         | Raise \<Rightarrow>
             (case amount req of
                None \<Rightarrow> Inl (MinimumRaiseIs (minRaise gs))
              | Some amt \<Rightarrow>
                  if amt = 0 \<or> amt < minRaise gs then Inl (MinimumRaiseIs (minRaise gs))
                  else
                    (let totalBet' = tableCurrentBet gs + amt;
                         additionalBet = totalBet' - currentBet player
                     in if additionalBet > chips player then Inl InsufficientChipsToRaise
                        else Inr (room\<lparr>players := ps[i :=
                                     player\<lparr>chips := chips player - additionalBet,
                                            currentBet := totalBet',
                                            totalBet := totalBet player + additionalBet,
                                            lastAction := Some Raise\<rparr>],
                                   gameState := gs\<lparr>pot := pot gs + additionalBet,
                                                   tableCurrentBet := totalBet',
                                                   minRaise := amt\<rparr>\<rparr>)))
         | AllIn \<Rightarrow>
             (let allInAmount = chips player;
                  newBet = currentBet player + allInAmount;
                  gs1 = gs\<lparr>pot := pot gs + allInAmount\<rparr>;
                  gs2 = (if newBet > tableCurrentBet gs1
                         then (let raiseAmount = newBet - tableCurrentBet gs1
                               in gs1\<lparr>tableCurrentBet := newBet,
                                       minRaise := max (minRaise gs1) raiseAmount\<rparr>)
                         else gs1)
              in Inr (room\<lparr>players := ps[i :=
                           player\<lparr>chips := 0,
                                  currentBet := newBet,
                                  totalBet := totalBet player + allInAmount,
                                  lastAction := Some AllIn\<rparr>],
                         gameState := gs2\<rparr>)))"

definition shouldAdvanceHand :: "Room \<Rightarrow> bool" where
  "shouldAdvanceHand room =
     (let activePlayers = filter isInHand (players room)
      in if length activePlayers \<le> 1 then True
         else
           (let playersWithChips = filter (\<lambda>p. chips p > 0) activePlayers
            in if length playersWithChips \<le> 1 then True
               else \<not> list_ex (\<lambda>player. chips player > 0 \<and>
                                    (lastAction player = None \<or>
                                     currentBet player < tableCurrentBet (gameState room)))
                        activePlayers))"

definition processShowdown :: "Room \<Rightarrow> (Error + GameEvent list) \<times> Room" where
  "processShowdown room =
     (let gs = gameState room
      in case determineWinners (players room) (communityCards gs) of
           Inl e \<Rightarrow> (Inl e, room)
         | Inr (winnerIdx, bestHand) \<Rightarrow>
             (let winnerIds = map (\<lambda>w. ident (players room ! w)) winnerIdx;
                  dp = distributePot (pot gs) winnerIdx (players room);
                  gs1 = gs\<lparr>winners := winnerIds, pot := fst dp\<rparr>;
                  gs2 = gs1\<lparr>phase := HandComplete, isHandActive := False\<rparr>
              in (Inr [WinnerDetermined winnerIds bestHand (pot gs1), HandEnded (handNumber gs)],
                  room\<lparr>players := snd dp, gameState := gs2\<rparr>)))"

text \<open>
  The end of \<^verbatim>\<open>advanceHand\<close>, after the switch on the phase: unless the phase is
  Showdown, the first player after the dealer who is active, in the hand and has chips
  acts next.
\<close>

definition setNextToAct ::
  "GameEvent list \<Rightarrow> Card list \<Rightarrow> Room \<Rightarrow> (Error + GameEvent list) \<times> Card list \<times> Room" where
  "setNextToAct events deck room =
     (let gs = gameState room; ps = players room
      in if phase gs \<noteq> Showdown then
           (if length ps = 0 then (Inl TypeError, deck, room)
            else
              (let idx = getNextActivePlayerIndex (dealerIndex gs) (length ps)
                           (\<lambda>index. isActive (ps ! index) \<and> isInHand (ps ! index) \<and>
                                     chips (ps ! index) > 0)
               in (Inr (events @ [PhaseChanged (phase gs) idx]), deck,
                   room\<lparr>gameState := gs\<lparr>currentPlayerIndex := idx\<rparr>\<rparr>)))
         else (Inr events, deck, room))"

text \<open>
  A case PreFlop, Flop or Turn of the switch of \<^verbatim>\<open>advanceHand\<close>: the phase is assigned
  first, then one card is burnt and \<open>numCards\<close> cards are dealt.
\<close>

definition dealStreet ::
  "GamePhase \<Rightarrow> nat \<Rightarrow> Card list \<Rightarrow> Room \<Rightarrow> (Error + GameEvent list) \<times> Card list \<times> Room" where
  "dealStreet newPhase numCards deck room =
     (let room1 = room\<lparr>gameState := (gameState room)\<lparr>phase := newPhase\<rparr>\<rparr>
      in case dealCommunityCards deck numCards True of
           Inl e \<Rightarrow> (Inl e, deck, room1)
         | Inr (dealt, remainingDeck) \<Rightarrow>
             setNextToAct [CardsDealt newPhase dealt] remainingDeck
               (room1\<lparr>gameState := (gameState room1)
                          \<lparr>communityCards := communityCards (gameState room1) @ dealt\<rparr>\<rparr>))"

definition advanceHand :: "Card list \<Rightarrow> Room \<Rightarrow> (Error + GameEvent list) \<times> Card list \<times> Room" where
  "advanceHand deck room =
     (let ps = map (\<lambda>p. if isInHand p then p\<lparr>lastAction := None\<rparr> else p) (players room);
          gs = (gameState room)\<lparr>tableCurrentBet := 0, minRaise := bigBlind (settings room)\<rparr>;
          room1 = room\<lparr>players := ps, gameState := gs\<rparr>
      in case phase gs of
           PreFlop \<Rightarrow> dealStreet Flop 3 deck room1
         | Flop \<Rightarrow> dealStreet Turn 1 deck room1
         | Turn \<Rightarrow> dealStreet River 1 deck room1
         | River \<Rightarrow>
             (let r = processShowdown (room1\<lparr>gameState := gs\<lparr>phase := Showdown\<rparr>\<rparr>)
              in (fst r, deck, snd r))
         | _ \<Rightarrow> setNextToAct [] deck room1)"

definition processPlayerAction ::
  "Card list \<Rightarrow> Room \<Rightarrow> PlayerActionRequest \<Rightarrow> (Error + GameEvent list) \<times> Card list \<times> Room" where
  "processPlayerAction deck room req =
     (case findIndex (\<lambda>p. ident p = playerId req) (players room) of
        None \<Rightarrow> (Inl InvalidPlayerOrTurn, deck, room)
      | Some i \<Rightarrow>
          (let player = players room ! i
           in if \<not> isInHand player \<or> currentPlayerIndex (gameState room) \<noteq> i
              then (Inl InvalidPlayerOrTurn, deck, room)
              else
                (case performAction room i req of
                   Inl e \<Rightarrow> (Inl e, deck, room)
                 | Inr room1 \<Rightarrow>
                     (let event = PlayerActed (ident player) (action req) (amount req)
                                    (chips player - chips (players room1 ! i))
                                    (pot (gameState room1))
                      in if shouldAdvanceHand room1 then
                           (case advanceHand deck room1 of
                              (Inl e, deck2, room2) \<Rightarrow> (Inl e, deck2, room2)
                            | (Inr events, deck2, room2) \<Rightarrow> (Inr (event # events), deck2, room2))
                         else
                           (let gs1 = gameState room1; ps1 = players room1;
                                idx = getNextActivePlayerIndex (currentPlayerIndex gs1) (length ps1)
                                        (\<lambda>index. isActive (ps1 ! index) \<and> isInHand (ps1 ! index))
                            in (Inr [event], deck, room1\<lparr>gameState := gs1\<lparr>currentPlayerIndex := idx\<rparr>\<rparr>))))))"

section \<open>Side pots (PokerEngine.swift)\<close>

text \<open>
  The fields of the client's \<^verbatim>\<open>Player\<close> struct that \<^verbatim>\<open>calculateSidePots\<close> reads: \<open>id\<close>,
  \<open>totalBetThisRound\<close> (an \<^verbatim>\<open>Int\<close>) and \<open>isAllIn\<close>.
\<close>

record ClientPlayer =
  clientId :: string
  totalBetThisRound :: int
  clientIsAllIn :: bool

text \<open>
  \<^verbatim>\<open>calculateSidePots\<close> of the client: the eligible players of a pot are a set of ids, and
  the players are visited in ascending order of their total bet (players with equal
  total bets in their given order).
\<close>

fun sidePotLoop ::
  "ClientPlayer list \<Rightarrow> int \<Rightarrow> string set \<Rightarrow> (int \<times> string set) list
     \<Rightarrow> (int \<times> string set) list" where
  "sidePotLoop [] previousBet remainingPlayers sidePots = sidePots"
| "sidePotLoop (player # ps) previousBet remainingPlayers sidePots =
     (let potContribution = totalBetThisRound player - previousBet;
          sidePots1 = (if potContribution > 0
                       then sidePots @ [(potContribution * int (card remainingPlayers), remainingPlayers)]
                       else sidePots);
          remainingPlayers1 = (if clientIsAllIn player then remainingPlayers - {clientId player}
                               else remainingPlayers)
      in sidePotLoop ps (totalBetThisRound player) remainingPlayers1 sidePots1)"

definition calculateSidePots :: "ClientPlayer list \<Rightarrow> (int \<times> string set) list" where
  "calculateSidePots ps =
     (let sortedPlayers = sort_cmp (\<lambda>a b. totalBetThisRound a - totalBetThisRound b)
                            (filter (\<lambda>p. totalBetThisRound p > 0) ps)
      in sidePotLoop sortedPlayers 0 (set (map clientId sortedPlayers)) [])"

section \<open>Scenarios and the conditions of the specification\<close>

subsection \<open>Fixtures\<close>

text \<open>A player as \<^verbatim>\<open>RoomManager.joinRoom\<close> creates it, and the game state of a new room.\<close>

definition newPlayer :: "string \<Rightarrow> number \<Rightarrow> Player" where
  "newPlayer name startingChips =
     \<lparr>ident = name, chips = startingChips, holeCards = [], isActive = True, isInHand = False,
      currentBet = 0, totalBet = 0, lastAction = None, isDealer = False,
      isSmallBlind = False, isBigBlind = False, hasFolded = False, isAllIn = False\<rparr>"

definition newGameState :: "number \<Rightarrow> GameState" where
  "newGameState bb =
     \<lparr>phase = Waiting, communityCards = [], pot = 0, currentPlayerIndex = 0, dealerIndex = 0,
      smallBlindIndex = 0, bigBlindIndex = 0, tableCurrentBet = 0, minRaise = bb,
      isHandActive = False, handNumber = 0, winners = []\<rparr>"

definition newRoom :: "Player list \<Rightarrow> number \<Rightarrow> number \<Rightarrow> Room" where
  "newRoom ps sb bb =
     \<lparr>players = ps, gameState = newGameState bb, settings = \<lparr>smallBlind = sb, bigBlind = bb\<rparr>\<rparr>"



text \<open>
  \<^verbatim>\<open>createDeck()\<close> of utils/helpers.ts: the suits in the order of the enum, the ranks 2 to
  14 within each suit. The identity is one of the orders a shuffle can return.
\<close>

definition createDeck :: "Card list" where
  "createDeck = concat (map (\<lambda>s. map (\<lambda>r. mkCard r s) [2, 3, 4, 5, 6, 7, 8, 9, 10, 11, 12, 13, 14])
                         [Hearts, Diamonds, Clubs, Spades])"

text \<open>A heads-up room about to start a hand: the dealer, seat 0, is the small blind.\<close>

definition headsUp :: "number \<Rightarrow> number \<Rightarrow> Room" where
  "headsUp stackA stackB =
     (newRoom [newPlayer ''A'' stackA, newPlayer ''B'' stackB] 10 20)
     \<lparr>gameState := (newGameState 20)\<lparr>dealerIndex := 0, smallBlindIndex := 0, bigBlindIndex := 1\<rparr>\<rparr>"



definition allInRequest :: "string \<Rightarrow> PlayerActionRequest" where
  "allInRequest name = \<lparr>playerId = name, action = AllIn, amount = None\<rparr>"

definition checkRequest :: "string \<Rightarrow> PlayerActionRequest" where
  "checkRequest name = \<lparr>playerId = name, action = Check, amount = None\<rparr>"

text \<open>The deck and the room after a call, whatever the call returned.\<close>

definition after :: "(Error + GameEvent list) \<times> Card list \<times> Room \<Rightarrow> Card list \<times> Room" where
  "after r = snd r"

definition act :: "Card list \<times> Room \<Rightarrow> PlayerActionRequest \<Rightarrow> Card list \<times> Room" where
  "act s req = after (processPlayerAction (fst s) (snd s) req)"





text \<open>
  The board and the hole cards of the side-pot scenario: A holds aces, C kings, B queens,
  and the board pairs nobody.
\<close>

definition board :: "Card list" where
  "board = [mkCard Two Clubs, mkCard Seven Diamonds, mkCard Nine Hearts, mkCard Jack Spades,
            mkCard Three Clubs]"

definition holeA :: "Card list" where "holeA = [mkCard Ace Spades, mkCard Ace Hearts]"

definition holeB :: "Card list" where "holeB = [mkCard Queen Spades, mkCard Queen Hearts]"

definition holeC :: "Card list" where "holeC = [mkCard King Spades, mkCard King Hearts]"

definition raiseRequest :: "string \<Rightarrow> number \<Rightarrow> PlayerActionRequest" where
  "raiseRequest name amt = \<lparr>playerId = name, action = Raise, amount = Some amt\<rparr>"

text \<open>
  A shuffled deck that deals kings to seat 0, aces to seat 1 and queens to seat 2, and then,
  after each burnt card, the board: the fourteen cards on top, the rest of the deck below.
\<close>

definition stackedDeck :: "Card list" where
  "stackedDeck =
     (let top = [mkCard King Spades, mkCard Ace Spades, mkCard Queen Spades,
                 mkCard King Hearts, mkCard Ace Hearts, mkCard Queen Hearts,
                 mkCard Four Diamonds, mkCard Two Clubs, mkCard Seven Diamonds, mkCard Nine Hearts,
                 mkCard Five Diamonds, mkCard Jack Spades,
                 mkCard Six Diamonds, mkCard Three Clubs]
      in top @ filter (\<lambda>c. c \<notin> set top) createDeck)"

text \<open>
  C with 1000 chips deals at seat 0; A with 50 chips is the small blind and B with 150
  chips the big blind.
\<close>

definition unequalStacks :: Room where
  "unequalStacks =
     (newRoom [newPlayer ''C'' 1000, newPlayer ''A'' 50, newPlayer ''B'' 150] 10 20)
     \<lparr>gameState := (newGameState 20)\<lparr>dealerIndex := 0, smallBlindIndex := 1, bigBlindIndex := 2\<rparr>\<rparr>"

text \<open>
  The hand played from the stacked deck: C raises to 150, A goes all-in for 50 and B all-in
  for 150; C, the only player with chips, checks the flop and the turn and is to act on
  the river.
\<close>

definition unequalAllInsRiver :: "Card list \<times> Room" where
  "unequalAllInsRiver =
     act (act (act (act (act (after (startNewHand stackedDeck unequalStacks))
                             (raiseRequest ''C'' 130))
                        (allInRequest ''A''))
                   (allInRequest ''B''))
              (checkRequest ''C''))
         (checkRequest ''C'')"


definition foldRequest :: "string \<Rightarrow> PlayerActionRequest" where
  "foldRequest name = \<lparr>playerId = name, action = Fold, amount = None\<rparr>"

text \<open>
  Heads-up with 1000 chips each and blinds 10 and 20, the deck in the order of
  \<^verbatim>\<open>createDeck\<close>: A raises by 20.5, B folds, and A checks the flop and the turn; A is to
  act on the river.
\<close>

definition halfChipRiver :: "Card list \<times> Room" where
  "halfChipRiver =
     act (act (act (act (after (startNewHand createDeck (headsUp 1000 1000)))
                        (raiseRequest ''A'' (41 / 2)))
                   (foldRequest ''B''))
              (checkRequest ''A''))
         (checkRequest ''A'')"

text \<open>
  The three players on the river as the client sees them: their total bets, and \<open>isAllIn\<close>
  set for A and B, who have no chips left.
\<close>

definition unequalAllInsClient :: "ClientPlayer list" where
  "unequalAllInsClient =
     [\<lparr>clientId = ''A'', totalBetThisRound = 50, clientIsAllIn = True\<rparr>,
      \<lparr>clientId = ''B'', totalBetThisRound = 150, clientIsAllIn = True\<rparr>,
      \<lparr>clientId = ''C'', totalBetThisRound = 150, clientIsAllIn = False\<rparr>]"

text \<open>The key that \<^verbatim>\<open>compareHands\<close> reads: the category, then the ranks of the cards and kickers.\<close>

definition handKey :: "Hand \<Rightarrow> int list" where
  "handKey h = rankValue (handRank h) # map rank (cards h @ kickers h)"

text \<open>
  The chips in play: the stacks of all players and the pot. The server keeps no side
  pots beside the pot.
\<close>

definition chipsInPlay :: "Room \<Rightarrow> number" where
  "chipsInPlay room = sum_list (map chips (players room)) + pot (gameState room)"

text \<open>A whole amount of chips: an integer that is not negative.\<close>

definition whole :: "number \<Rightarrow> bool" where
  "whole x = (0 \<le> x \<and> x \<in> \<int>)"

definition wholeRequest :: "PlayerActionRequest \<Rightarrow> bool" where
  "wholeRequest req = (case amount req of None \<Rightarrow> True | Some amt \<Rightarrow> amt \<in> \<int>)"

text \<open>
  A hand on whole chips starts from whole stacks and blinds, with no bet left over with a
  player who sits out (\<^verbatim>\<open>prepareNextHand\<close> resets the bets of all players).
\<close>

definition handStartOk :: "Room \<Rightarrow> bool" where
  "handStartOk room =
     (list_all (\<lambda>p. whole (chips p) \<and> (isActive p \<or> currentBet p = 0)) (players room)
      \<and> whole (smallBlind (settings room)) \<and> whole (bigBlind (settings room)))"

text \<open>
  The states of a hand on whole chips: the state \<^verbatim>\<open>startNewHand\<close> leaves, and every state
  that a call of \<^verbatim>\<open>processPlayerAction\<close> with an integer amount, if any, leaves, whether the
  call returned or threw.
\<close>

inductive reachable :: "Room \<Rightarrow> Card list \<times> Room \<Rightarrow> bool" for start :: Room where
  started:
    "startNewHand shuffled start = (result, deck, room) \<Longrightarrow> reachable start (deck, room)"
| acted:
    "reachable start (deck, room) \<Longrightarrow> wholeRequest req \<Longrightarrow>
     processPlayerAction deck room req = (result, deck', room') \<Longrightarrow>
     reachable start (deck', room')"

text \<open>Bets are covered: stacks, bets and pot are whole and the pot holds at least the bets.\<close>

definition covered :: "Room \<Rightarrow> bool" where
  "covered room =
     (list_all (\<lambda>p. whole (chips p) \<and> whole (currentBet p)) (players room)
      \<and> sum_list (map currentBet (players room)) \<le> pot (gameState room)
      \<and> pot (gameState room) \<in> \<int>)"

definition liveBets :: "Room \<Rightarrow> bool" where
  "liveBets room =
     (covered room \<and> whole (tableCurrentBet (gameState room)) \<and> 0 \<le> minRaise (gameState room)
      \<and> whole (bigBlind (settings room)))"

fun bettingPhase :: "GamePhase \<Rightarrow> bool" where
  "bettingPhase PreFlop = True"
| "bettingPhase Flop = True"
| "bettingPhase Turn = True"
| "bettingPhase River = True"
| "bettingPhase _ = False"

definition handInvariant :: "Room \<Rightarrow> bool" where
  "handInvariant room = (bettingPhase (phase (gameState room)) \<longrightarrow> liveBets room)"

section \<open>Properties\<close>

subsection \<open>Literal evaluations\<close>

text \<open>
  C5. The seven cards 2C 2D 2H 5S 5D 9C 9H evaluate to a full house of the three 2s and
  the pair of 9s. \<^verbatim>\<open>separateCardsByRank\<close> collects the triple before the pair and then
  sorts the primary cards by rank, so the hand lists the 9s in front of the 2s: the ranks
  of its cards are 9, 9, 2, 2, 2 and not 2, 2, 2, 9, 9.
\<close>

theorem evaluateHand_full_house_twos_nines:
  "evaluateHand [mkCard Two Clubs, mkCard Two Diamonds, mkCard Two Hearts, mkCard Five Spades,
                 mkCard Five Diamonds, mkCard Nine Clubs, mkCard Nine Hearts]
   = Inr (mkHand FullHouse
            [mkCard Nine Clubs, mkCard Nine Hearts,
             mkCard Two Clubs, mkCard Two Diamonds, mkCard Two Hearts]
            [] ''Full House'')"
  by code_simp

text \<open>
  What the order costs: the comparison reads the pair first, so 2s full of 9s beat
  3s full of 4s.
\<close>

lemma full_house_compared_by_pair:
  "compareHands
     (mkHand FullHouse [mkCard Nine Clubs, mkCard Nine Hearts,
                        mkCard Two Clubs, mkCard Two Diamonds, mkCard Two Hearts] [] ''Full House'')
     (mkHand FullHouse [mkCard Four Clubs, mkCard Four Hearts,
                        mkCard Three Clubs, mkCard Three Diamonds, mkCard Three Hearts] [] ''Full House'')
   > 0"
  by (simp add: compareHands_def mkHand_def mkCard_def)

text \<open>
  C6. The seven cards AS 2H 3D 4C 5S 9H 10D evaluate to a straight arranged 5-4-3-2-A,
  the 5 in front and the ace last. Every 2-3-4-5-6 that is not a flush evaluates to a
  straight headed by the 6, and \<^verbatim>\<open>compareHands\<close> puts the wheel strictly below it.
\<close>

theorem wheel_straight_below_six_high:
  "evaluateHand [mkCard Ace Spades, mkCard Two Hearts, mkCard Three Diamonds, mkCard Four Clubs,
                 mkCard Five Spades, mkCard Nine Hearts, mkCard Ten Diamonds]
     = Inr (mkHand Straight
              [mkCard Five Spades, mkCard Four Clubs, mkCard Three Diamonds,
               mkCard Two Hearts, mkCard Ace Spades] [] ''Straight'')
   \<and> (\<forall>s1 s2 s3 s4 s5.
        \<not> (s1 = s2 \<and> s2 = s3 \<and> s3 = s4 \<and> s4 = s5) \<longrightarrow>
        (\<exists>sixHigh.
           evaluateHand [mkCard Two s1, mkCard Three s2, mkCard Four s3, mkCard Five s4,
                         mkCard Six s5] = Inr sixHigh
           \<and> handRank sixHigh = Straight
           \<and> map rank (cards sixHigh) = [Six, Five, Four, Three, Two]
           \<and> compareHands
                (mkHand Straight
                   [mkCard Five Spades, mkCard Four Clubs, mkCard Three Diamonds,
                    mkCard Two Hearts, mkCard Ace Spades] [] ''Straight'')
                sixHigh < 0))"
proof (intro conjI allI impI)
  show "evaluateHand [mkCard Ace Spades, mkCard Two Hearts, mkCard Three Diamonds,
                      mkCard Four Clubs, mkCard Five Spades, mkCard Nine Hearts,
                      mkCard Ten Diamonds]
        = Inr (mkHand Straight
                 [mkCard Five Spades, mkCard Four Clubs, mkCard Three Diamonds,
                  mkCard Two Hearts, mkCard Ace Spades] [] ''Straight'')"
    by code_simp
next
  fix s1 s2 s3 s4 s5 :: CardSuit
  assume mixed: "\<not> (s1 = s2 \<and> s2 = s3 \<and> s3 = s4 \<and> s4 = s5)"
  let ?six = "mkHand Straight [mkCard Six s5, mkCard Five s4, mkCard Four s3,
                               mkCard Three s2, mkCard Two s1] [] ''Straight''"
  have ev: "evaluateHand [mkCard Two s1, mkCard Three s2, mkCard Four s3, mkCard Five s4,
                          mkCard Six s5] = Inr ?six"
    using mixed
    apply (simp add: evaluateHand_def evaluateExactHand_def sort_cmp_def mkCard_def
          isStraight_def isWheelStraight_def uniq_def nth_is_def countRanks_def Let_def
          mkHand_def)
    apply auto
    done
  have lower: "compareHands
                 (mkHand Straight
                    [mkCard Five Spades, mkCard Four Clubs, mkCard Three Diamonds,
                     mkCard Two Hearts, mkCard Ace Spades] [] ''Straight'')
                 ?six < 0"
    by (simp add: compareHands_def mkHand_def mkCard_def)
  have shape: "handRank ?six = Straight \<and> map rank (cards ?six) = [Six, Five, Four, Three, Two]"
    by (simp add: mkHand_def mkCard_def)
  show "\<exists>sixHigh.
           evaluateHand [mkCard Two s1, mkCard Three s2, mkCard Four s3, mkCard Five s4,
                         mkCard Six s5] = Inr sixHigh
           \<and> handRank sixHigh = Straight
           \<and> map rank (cards sixHigh) = [Six, Five, Four, Three, Two]
           \<and> compareHands
                (mkHand Straight
                   [mkCard Five Spades, mkCard Four Clubs, mkCard Three Diamonds,
                    mkCard Two Hearts, mkCard Ace Spades] [] ''Straight'')
                sixHigh < 0"
    using ev lower shape by (intro exI[of _ ?six]) simp
qed

theorem wheel_straight_below_six_high_witness:
  "\<exists>sixHigh.
     evaluateHand [mkCard Two Hearts, mkCard Three Diamonds, mkCard Four Clubs,
                   mkCard Five Spades, mkCard Six Hearts] = Inr sixHigh
     \<and> handRank sixHigh = Straight
     \<and> compareHands
          (mkHand Straight
             [mkCard Five Spades, mkCard Four Clubs, mkCard Three Diamonds,
              mkCard Two Hearts, mkCard Ace Spades] [] ''Straight'')
          sixHigh < 0"
  using wheel_straight_below_six_high
          [THEN conjunct2, rule_format, of Hearts Diamonds Clubs Spades Hearts]
  by auto

subsection \<open>Round completion\<close>






subsection \<open>Posting the blinds\<close>

lemma postSmallBlind_length: "length (players (postSmallBlind room)) = length (players room)"
  by (simp add: postSmallBlind_def Let_def)

lemma postBigBlind_length: "length (players (postBigBlind room)) = length (players room)"
  by (simp add: postBigBlind_def Let_def)

lemma postBlinds_length: "length (players (postBlinds room)) = length (players room)"
  by (simp add: postBlinds_def postBigBlind_length postSmallBlind_length)

text \<open>
  C8 (amended). With the two blind seats distinct, in range and active, \<^verbatim>\<open>postBlinds\<close>
  moves \<open>min(blind, chips)\<close> from each poster to the pot, small blind first, and records it
  as the poster's current and total bet. It leaves \<open>isAllIn\<close> as it was, also for a blind
  posted short.
\<close>

theorem postBlinds_capped:
  assumes "smallBlindIndex (gameState room) < length (players room)"
    and "bigBlindIndex (gameState room) < length (players room)"
    and "smallBlindIndex (gameState room) \<noteq> bigBlindIndex (gameState room)"
    and "isActive (players room ! smallBlindIndex (gameState room))"
    and "isActive (players room ! bigBlindIndex (gameState room))"
  shows "let sb = players room ! smallBlindIndex (gameState room);
             bb = players room ! bigBlindIndex (gameState room);
             sbAmount = min (smallBlind (settings room)) (chips sb);
             bbAmount = min (bigBlind (settings room)) (chips bb);
             room' = postBlinds room;
             sb' = players room' ! smallBlindIndex (gameState room);
             bb' = players room' ! bigBlindIndex (gameState room)
         in chips sb' = chips sb - sbAmount \<and> currentBet sb' = sbAmount \<and> totalBet sb' = sbAmount
            \<and> chips bb' = chips bb - bbAmount \<and> currentBet bb' = bbAmount \<and> totalBet bb' = bbAmount
            \<and> pot (gameState room') = pot (gameState room) + sbAmount + bbAmount
            \<and> isAllIn sb' = isAllIn sb \<and> isAllIn bb' = isAllIn bb"
  using assms
  by (simp add: postBlinds_def postBigBlind_def postSmallBlind_def Let_def)

theorem postBlinds_capped_witness:
  "chips (players (postBlinds (headsUp 5 1000)) ! 0) = 0
   \<and> currentBet (players (postBlinds (headsUp 5 1000)) ! 0) = 5
   \<and> chips (players (postBlinds (headsUp 5 1000)) ! 1) = 980
   \<and> pot (gameState (postBlinds (headsUp 5 1000))) = 25"
  using postBlinds_capped [of "headsUp 5 1000"]
  by (simp add: headsUp_def newRoom_def newPlayer_def newGameState_def Let_def)

text \<open>
  C8, as stated, fails: player A starts a hand with 5 chips against a small blind of 10.
  The whole stack is posted, short of the blind, and \<open>isAllIn\<close> stays false.
\<close>

theorem short_blind_allIn_counterexample:
  "chips (players (snd (after (startNewHand createDeck (headsUp 5 1000)))) ! 0) = 0
   \<and> currentBet (players (snd (after (startNewHand createDeck (headsUp 5 1000)))) ! 0) = 5
   \<and> smallBlind (settings (snd (after (startNewHand createDeck (headsUp 5 1000))))) = 10
   \<and> \<not> isAllIn (players (snd (after (startNewHand createDeck (headsUp 5 1000)))) ! 0)"
  by code_simp

subsection \<open>Calling\<close>




subsection \<open>Rejected requests\<close>



subsection \<open>All-in before the river\<close>

text \<open>
  C4, at the failing input. Heads-up with 100 chips each and blinds 10 and 20, A opens
  the hand by going all-in and B follows. Both players in the hand are then all-in before
  the river. Each of the two requests moved the hand on by one phase only: after A's the
  flop is dealt, after B's the turn, the river is not, and the pot of 200 is not awarded.
  Two further requests are needed to reach the showdown.
\<close>

theorem all_in_advances_one_phase:
  "(let s0 = after (startNewHand createDeck (headsUp 100 100));
        s1 = act s0 (allInRequest ''A'');
        s2 = act s1 (allInRequest ''B'');
        s3 = act s2 (checkRequest ''A'');
        s4 = act s3 (checkRequest ''A'')
    in phase (gameState (snd s1)) = Flop
       \<and> chips (players (snd s2) ! 0) = 0 \<and> chips (players (snd s2) ! 1) = 0
       \<and> isInHand (players (snd s2) ! 0) \<and> isInHand (players (snd s2) ! 1)
       \<and> phase (gameState (snd s2)) = Turn
       \<and> length (communityCards (gameState (snd s2))) = 4
       \<and> pot (gameState (snd s2)) = 200
       \<and> isHandActive (gameState (snd s2))
       \<and> winners (gameState (snd s2)) = []
       \<and> phase (gameState (snd s3)) = River
       \<and> pot (gameState (snd s3)) = 200
       \<and> phase (gameState (snd s4)) = HandComplete
       \<and> pot (gameState (snd s4)) = 0)"
  by code_simp

subsection \<open>Unequal all-ins at the showdown\<close>

text \<open>
  C1, at the failing input. On the river A is all-in for 50, B all-in for 150 and C has
  put in 150; the pot holds 350. A's hand beats C's and C's beats B's. The client's
  \<^verbatim>\<open>calculateSidePots\<close> finds the two layers, 150 for A, B and C and 200 for B and C, which
  add up to the pot. The showdown of the server, reached when C checks the river, does
  not layer the pot: \<^verbatim>\<open>distributePot\<close> hands all 350 chips to A, and C, who should win the
  layer of 200, is awarded nothing.
\<close>

theorem showdown_ignores_side_pots:
  "(let river = snd unequalAllInsRiver;
        showdown = snd (act unequalAllInsRiver (checkRequest ''C''))
    in map ident (players river) = [''C'', ''A'', ''B'']
       \<and> map holeCards (players river) = [holeC, holeA, holeB]
       \<and> communityCards (gameState river) = board
       \<and> phase (gameState river) = River
       \<and> map totalBet (players river) = [150, 50, 150]
       \<and> map chips (players river) = [850, 0, 0]
       \<and> pot (gameState river) = 350
       \<and> (case (evaluateHand (holeA @ board), evaluateHand (holeB @ board),
                 evaluateHand (holeC @ board)) of
             (Inr handA, Inr handB, Inr handC) \<Rightarrow>
               compareHands handA handC > 0 \<and> compareHands handC handB > 0
           | _ \<Rightarrow> False)
       \<and> calculateSidePots unequalAllInsClient
           = [(150, {''A'', ''B'', ''C''}), (200, {''B'', ''C''})]
       \<and> phase (gameState showdown) = HandComplete
       \<and> winners (gameState showdown) = [''A'']
       \<and> pot (gameState showdown) = 0
       \<and> map chips (players showdown) = [850, 350, 0])"
  by code_simp

subsection \<open>Sorting with a comparator\<close>

lemma mset_insort_cmp: "mset (insort_cmp cmp x xs) = add_mset x (mset xs)"
  by (induction xs) auto

lemma mset_sort_cmp: "mset (sort_cmp cmp xs) = mset xs"
  by (induction xs) (auto simp add: sort_cmp_def mset_insort_cmp)

lemma length_sort_cmp: "length (sort_cmp cmp xs) = length xs"
  using mset_sort_cmp [of cmp xs] by (metis size_mset)

lemma set_sort_cmp: "set (sort_cmp cmp xs) = set xs"
  using mset_sort_cmp [of cmp xs] by (metis set_mset_mset)

lemma distinct_sort_cmp: "distinct (sort_cmp cmp xs) = distinct xs"
  using mset_sort_cmp [of cmp xs] by (metis mset_eq_imp_distinct_iff)

lemma sum_list_sort_cmp: "sum_list (sort_cmp cmp (xs :: int list)) = sum_list xs"
  using mset_sort_cmp [of cmp xs] by (metis sum_mset_sum_list)

lemma sort_cmp_pair:
  "sort_cmp cmp [x, y] = (if cmp x y \<le> 0 then [x, y] else [y, x])"
  by (simp add: sort_cmp_def)

lemma distinct_uniq: "distinct (uniq xs)"
  by (simp add: uniq_def)

lemma set_uniq: "set (uniq xs) = set xs"
  by (simp add: uniq_def)

subsection \<open>The combinations are the subsequences\<close>

lemma getCombinations_subseq:
  "1 \<le> k \<Longrightarrow> k \<le> int (length xs) \<Longrightarrow>
   \<exists>combos. getCombinations xs k = Some combos
            \<and> set combos = {c. subseq c xs \<and> int (length c) = k}"
proof (induction xs arbitrary: k)
  case Nil
  then show ?case by simp
next
  case (Cons first rest)
  show ?case
  proof (cases "k = 1")
    case True
    have "set (map (\<lambda>el. [el]) (first # rest)) = {c. subseq c (first # rest) \<and> length c = 1}"
    proof (intro set_eqI iffI)
      fix c assume "c \<in> set (map (\<lambda>el. [el]) (first # rest))"
      then obtain x where "c = [x]" "x \<in> set (first # rest)" by auto
      then show "c \<in> {c. subseq c (first # rest) \<and> length c = 1}"
        by (auto simp add: subseq_singleton_left)
    next
      fix c assume "c \<in> {c. subseq c (first # rest) \<and> length c = 1}"
      then have s: "subseq c (first # rest)" and l: "length c = 1" by auto
      from l obtain x where c: "c = [x]" by (cases c) auto
      with s have "x \<in> set (first # rest)" by (simp only: subseq_singleton_left)
      with c show "c \<in> set (map (\<lambda>el. [el]) (first # rest))" by auto
    qed
    with True show ?thesis by simp
  next
    case not1: False
    show ?thesis
    proof (cases "k = int (length (first # rest))")
      case True
      have "{c. subseq c (first # rest) \<and> int (length c) = k} = {first # rest}"
        using True subseq_same_length [of _ "first # rest"] by auto
      with True not1 show ?thesis by simp
    next
      case False
      with not1 Cons.prems have k1: "1 \<le> k - 1" "k - 1 \<le> int (length rest)"
        and k2: "1 \<le> k" "k \<le> int (length rest)" by auto
      from Cons.IH [OF k1] obtain withFirst where
        wf: "getCombinations rest (k - 1) = Some withFirst"
            "set withFirst = {c. subseq c rest \<and> int (length c) = k - 1}" by blast
      from Cons.IH [OF k2] obtain withoutFirst where
        wo: "getCombinations rest k = Some withoutFirst"
            "set withoutFirst = {c. subseq c rest \<and> int (length c) = k}" by blast
      have "set (map (\<lambda>combo. first # combo) withFirst @ withoutFirst)
            = {c. subseq c (first # rest) \<and> int (length c) = k}"
      proof (intro set_eqI iffI)
        fix c assume "c \<in> set (map (\<lambda>combo. first # combo) withFirst @ withoutFirst)"
        then consider c' where "c = first # c'" "subseq c' rest" "int (length c') = k - 1"
          | "subseq c rest" "int (length c) = k"
          using wf(2) wo(2) by auto
        then show "c \<in> {c. subseq c (first # rest) \<and> int (length c) = k}"
          by cases auto
      next
        fix c assume "c \<in> {c. subseq c (first # rest) \<and> int (length c) = k}"
        then have s: "subseq c (first # rest)" and l: "int (length c) = k" by auto
        from l k2 obtain x c' where c: "c = x # c'" by (cases c) auto
        show "c \<in> set (map (\<lambda>combo. first # combo) withFirst @ withoutFirst)"
        proof (cases "x = first")
          case True
          with s c have "subseq c' rest" by simp
          moreover from l c have "int (length c') = k - 1" by simp
          ultimately have "c' \<in> set withFirst" using wf(2) by simp
          with c True show ?thesis by simp
        next
          case False
          with s c have "subseq c rest" by simp
          with l have "c \<in> set withoutFirst" using wo(2) by simp
          then show ?thesis by simp
        qed
      qed
      with wf(1) wo(1) not1 False show ?thesis by simp
    qed
  qed
qed

subsection \<open>Every evaluated hand ranks five cards\<close>

lemma map_of_tabulate:
  "map_of (map (\<lambda>r. (r, f r)) ks) r = (if r \<in> set ks then Some (f r) else None)"
  by (induction ks) auto

lemma getCount_countRanks:
  "r \<in> set ranks \<Longrightarrow> getCount (countRanks ranks) r = int (count_list ranks r)"
  by (simp add: getCount_def countRanks_def map_of_tabulate set_sort_cmp set_uniq)

lemma keys_countRanks:
  "map fst (countRanks ranks) = sort_cmp (\<lambda>a b. a - b) (uniq ranks)"
  by (simp add: countRanks_def comp_def)

lemma values_countRanks:
  "map snd (countRanks ranks)
   = map (\<lambda>r. int (count_list ranks r)) (sort_cmp (\<lambda>a b. a - b) (uniq ranks))"
  by (simp add: countRanks_def comp_def)

lemma count_list_rank:
  "count_list (map rank cs) r = length (filter (\<lambda>c. rank c = r) cs)"
  by (induction cs) auto

lemma separateLoop_length:
  "length (fst (separateLoop cs rc ts rs ti p k)) + length (snd (separateLoop cs rc ts rs ti p k))
   = length p + length k + sum_list (map (\<lambda>r. length (filter (\<lambda>c. rank c = r) cs)) rs)"
  by (induction rs arbitrary: ti p k) (auto simp add: Let_def)

lemma filter_rank_split:
  "r \<notin> set rs \<Longrightarrow>
   length (filter (\<lambda>c. rank c = r) cs) + length (filter (\<lambda>c. rank c \<in> set rs) cs)
   = length (filter (\<lambda>c. rank c = r \<or> rank c \<in> set rs) cs)"
  by (induction cs) auto

lemma filter_rank_partition:
  "distinct rs \<Longrightarrow>
   sum_list (map (\<lambda>r. length (filter (\<lambda>c. rank c = r) cs)) rs)
   = length (filter (\<lambda>c. rank c \<in> set rs) cs)"
proof (induction rs)
  case Nil
  then show ?case by simp
next
  case (Cons r rs)
  then have "r \<notin> set rs" and "distinct rs" by auto
  with Cons.IH filter_rank_split [of r rs cs] show ?case by simp
qed

lemma filter_rank_all:
  "distinct rs \<Longrightarrow> set rs = set (map rank cs) \<Longrightarrow>
   sum_list (map (\<lambda>r. length (filter (\<lambda>c. rank c = r) cs)) rs) = length cs"
  by (simp add: filter_rank_partition)

lemma length_slice0_all: "n = int (length xs) \<Longrightarrow> slice0 xs n = xs"
  by (simp add: slice0_def)

lemma separateCardsByRank_length:
  assumes "length cs = 5"
  shows "length (fst (separateCardsByRank cs (countRanks (map rank cs)) ts))
         + length (snd (separateCardsByRank cs (countRanks (map rank cs)) ts)) = 5"
proof -
  let ?rc = "countRanks (map rank cs)"
  let ?cmp = "\<lambda>a b. let countDiff = getCount ?rc b - getCount ?rc a
                     in if countDiff \<noteq> 0 then countDiff else b - a"
  let ?rs = "sort_cmp ?cmp (map fst ?rc)"
  let ?pk = "separateLoop cs ?rc ts ?rs 0 [] []"
  let ?prim = "sort_cmp (\<lambda>a b. rank b - rank a) (fst ?pk)"
  let ?kick = "sort_cmp (\<lambda>a b. rank b - rank a) (snd ?pk)"
  have d: "distinct ?rs" and s: "set ?rs = set (map rank cs)"
    by (simp_all add: distinct_sort_cmp set_sort_cmp keys_countRanks distinct_uniq set_uniq)
  have "length (fst ?pk) + length (snd ?pk) = length cs"
    using separateLoop_length [of cs ?rc ts ?rs 0 "[]" "[]"] filter_rank_all [OF d s]
    by simp
  with assms have total: "length ?prim + length ?kick = 5"
    by (simp add: length_sort_cmp)
  then have "slice0 ?kick (5 - int (length ?prim)) = ?kick"
    by (intro length_slice0_all) linarith
  with total show ?thesis
    by (simp add: separateCardsByRank_def Let_def)
qed

lemma sum_list_int: "sum_list (map (\<lambda>r. int (f r)) ks) = int (sum_list (map f ks))"
  by (induction ks) auto

lemma sum_zero_all_positive:
  "sum_list (xs :: int list) = 0 \<Longrightarrow> \<forall>x \<in> set xs. 1 \<le> x \<Longrightarrow> xs = []"
proof (cases xs)
  case Nil
  then show ?thesis by simp
next
  case (Cons x rest)
  assume z: "sum_list xs = 0" and p: "\<forall>x \<in> set xs. 1 \<le> x"
  from p Cons have "0 \<le> sum_list rest" by (intro sum_list_nonneg) force
  moreover from p Cons have "1 \<le> x" by simp
  ultimately show ?thesis using z Cons by simp
qed

lemma full_house_primary_length:
  assumes len: "length cs = 5"
    and c0: "nth_is (sort_cmp (\<lambda>a b. b - a) (map snd (countRanks (map rank cs)))) 0 3"
    and c1: "nth_is (sort_cmp (\<lambda>a b. b - a) (map snd (countRanks (map rank cs)))) 1 2"
  shows "length (fst (separateCardsByRank cs (countRanks (map rank cs)) [3, 2])) = 5"
proof -
  let ?R = "map rank cs"
  let ?rc = "countRanks ?R"
  let ?ks = "sort_cmp (\<lambda>a b. a - b) (uniq ?R)"
  let ?n = "\<lambda>r. int (count_list ?R r)"
  let ?counts = "sort_cmp (\<lambda>a b. b - a) (map snd ?rc)"
  have dks: "distinct ?ks" and sks: "set ?ks = set ?R"
    by (simp_all add: distinct_sort_cmp set_sort_cmp distinct_uniq set_uniq)
  have vals: "map snd ?rc = map ?n ?ks" by (rule values_countRanks)
  have "sum_list (map ?n ?ks) = int (length cs)"
    using filter_rank_all [OF dks sks] by (simp add: sum_list_int count_list_rank)
  with len have sum5: "sum_list ?counts = 5"
    by (simp add: sum_list_sort_cmp vals)
  have pos: "\<forall>x \<in> set ?counts. 1 \<le> x"
  proof
    fix x assume "x \<in> set ?counts"
    then obtain r where "r \<in> set ?R" "x = ?n r"
      using sks by (auto simp add: set_sort_cmp vals)
    moreover from this have "count_list ?R r \<noteq> 0" by (simp add: count_list_0_iff)
    ultimately show "1 \<le> x" by simp
  qed
  from c0 c1 obtain rest where counts: "?counts = 3 # 2 # rest"
    by (cases ?counts; cases "tl ?counts") (auto simp add: nth_is_def)
  with sum5 pos have "sum_list rest = 0" "\<forall>x \<in> set rest. 1 \<le> x" by auto
  then have "rest = []" by (rule sum_zero_all_positive)
  with counts have c32: "?counts = [3, 2]" by simp
  then have "length ?ks = 2"
    using length_sort_cmp [of "\<lambda>a b. b - a" "map snd ?rc"] vals by simp
  then obtain k1 k2 where ks: "?ks = [k1, k2]"
    by (cases ?ks; cases "tl ?ks") auto
  with dks sks have mem: "k1 \<in> set ?R" "k2 \<in> set ?R" and ne: "k1 \<noteq> k2"
    by (metis list.set_intros(1) , metis list.set_intros(1,2), simp)
  have g1: "getCount ?rc k1 = ?n k1" and g2: "getCount ?rc k2 = ?n k2"
    using mem by (simp_all add: getCount_countRanks)
  have keys: "map fst ?rc = [k1, k2]" using ks by (simp add: keys_countRanks)
  from c32 vals ks have "sort_cmp (\<lambda>a b. b - a) [?n k1, ?n k2] = [3, 2]" by simp
  then have cases: "(?n k1 = 3 \<and> ?n k2 = 2) \<or> (?n k1 = 2 \<and> ?n k2 = 3)"
    by (simp add: sort_cmp_pair split: if_splits)
  have f1: "length (filter (\<lambda>c. rank c = k1) cs) = count_list ?R k1"
    and f2: "length (filter (\<lambda>c. rank c = k2) cs) = count_list ?R k2"
    by (simp_all add: count_list_rank)
  from cases show ?thesis
  proof
    assume a: "?n k1 = 3 \<and> ?n k2 = 2"
    then show ?thesis
      using g1 g2 f1 f2
      by (simp add: separateCardsByRank_def keys sort_cmp_pair Let_def length_sort_cmp)
  next
    assume a: "?n k1 = 2 \<and> ?n k2 = 3"
    then show ?thesis
      using g1 g2 f1 f2
      by (simp add: separateCardsByRank_def keys sort_cmp_pair Let_def length_sort_cmp)
  qed
qed

lemma length_arrangeWheelStraight: "length (arrangeWheelStraight cs) = length cs"
  by (simp add: arrangeWheelStraight_def length_sort_cmp)

lemma evaluateExactHand_five:
  assumes "length cs = 5"
  shows "\<exists>h. evaluateExactHand cs = Inr h \<and> length (cards h @ kickers h) = 5"
proof -
  let ?S = "sort_cmp (\<lambda>a b. rank b - rank a) cs"
  have l: "length ?S = 5" using assms by (simp add: length_sort_cmp)
  note sep = separateCardsByRank_length [OF l]
  note fh = full_house_primary_length [OF l]
  have s5: "slice0 ?S 5 = ?S" using l by (simp add: length_slice0_all)
  show ?thesis
    using assms l sep fh s5
    by (simp add: evaluateExactHand_def Let_def mkHand_def length_arrangeWheelStraight)
qed

subsection \<open>The comparison of hands is a linear preorder on five-card hands\<close>

lemma rankValue_eq_iff: "rankValue a = rankValue b \<longleftrightarrow> a = b"
  by (cases a; cases b) simp_all

lemma compareCards_le_iff:
  "length xs = length ys \<Longrightarrow> compareCards xs ys \<le> 0 \<longleftrightarrow> map rank xs \<le> map rank ys"
  by (induction xs ys rule: list_induct2) auto

lemma compareHands_le_iff:
  assumes "length (cards a @ kickers a) = length (cards b @ kickers b)"
  shows "compareHands a b \<le> 0 \<longleftrightarrow> handKey a \<le> handKey b"
proof (cases "handRank a = handRank b")
  case True
  with compareCards_le_iff [OF assms] show ?thesis
    by (simp add: compareHands_def handKey_def)
next
  case False
  then have "rankValue (handRank a) \<noteq> rankValue (handRank b)"
    by (simp add: rankValue_eq_iff)
  with False show ?thesis
    by (auto simp add: compareHands_def handKey_def)
qed

subsection \<open>The loop keeps a best hand\<close>

lemma bestOfCombinations_best:
  assumes "\<forall>c \<in> set combos. length c = 5"
    and "\<forall>b. b0 = Some b \<longrightarrow> length (cards b @ kickers b) = 5"
  shows "\<exists>r. bestOfCombinations b0 combos = Inr r
           \<and> (r = None \<longrightarrow> b0 = None \<and> combos = [])
           \<and> (\<forall>best. r = Some best \<longrightarrow>
                 length (cards best @ kickers best) = 5
                 \<and> (b0 = Some best \<or> (\<exists>c \<in> set combos. evaluateExactHand c = Inr best))
                 \<and> (\<forall>b. b0 = Some b \<longrightarrow> handKey b \<le> handKey best)
                 \<and> (\<forall>c \<in> set combos. \<forall>h. evaluateExactHand c = Inr h \<longrightarrow>
                        handKey h \<le> handKey best))"
  using assms
proof (induction combos arbitrary: b0)
  case Nil
  then show ?case by (cases b0) auto
next
  case (Cons c combos)
  from Cons.prems(1) have c5: "length c = 5" and rest5: "\<forall>c \<in> set combos. length c = 5"
    by auto
  from evaluateExactHand_five [OF c5] obtain h where
    h: "evaluateExactHand c = Inr h" and h5: "length (cards h @ kickers h) = 5" by blast
  show ?case
  proof (cases b0)
    case None
    have "\<forall>b. Some h = Some b \<longrightarrow> length (cards b @ kickers b) = 5" using h5 by simp
    from Cons.IH [OF rest5 this] obtain r where
      r: "bestOfCombinations (Some h) combos = Inr r"
         "r = None \<longrightarrow> Some h = None \<and> combos = []"
         "\<forall>best. r = Some best \<longrightarrow>
             length (cards best @ kickers best) = 5
             \<and> (Some h = Some best \<or> (\<exists>c \<in> set combos. evaluateExactHand c = Inr best))
             \<and> (\<forall>b. Some h = Some b \<longrightarrow> handKey b \<le> handKey best)
             \<and> (\<forall>c \<in> set combos. \<forall>h. evaluateExactHand c = Inr h \<longrightarrow>
                    handKey h \<le> handKey best)"
      by blast
    from r(1) None h have run: "bestOfCombinations b0 (c # combos) = Inr r" by simp
    from r(2) obtain best where best: "r = Some best" by (cases r) auto
    with r(3) have facts:
      "length (cards best @ kickers best) = 5"
      "h = best \<or> (\<exists>c \<in> set combos. evaluateExactHand c = Inr best)"
      "handKey h \<le> handKey best"
      "\<forall>c \<in> set combos. \<forall>h. evaluateExactHand c = Inr h \<longrightarrow> handKey h \<le> handKey best"
      by auto
    show ?thesis
      using run best None h facts by auto
  next
    case (Some old)
    with Cons.prems(2) have old5: "length (cards old @ kickers old) = 5" by simp
    with h5 have cmp: "compareHands h old \<le> 0 \<longleftrightarrow> handKey h \<le> handKey old"
      by (intro compareHands_le_iff) simp
    show ?thesis
    proof (cases "compareHands h old > 0")
      case True
      with cmp have lt: "handKey old \<le> handKey h" by auto
      have "\<forall>b. Some h = Some b \<longrightarrow> length (cards b @ kickers b) = 5" using h5 by simp
      from Cons.IH [OF rest5 this] obtain r where
        r: "bestOfCombinations (Some h) combos = Inr r"
           "r = None \<longrightarrow> Some h = None \<and> combos = []"
           "\<forall>best. r = Some best \<longrightarrow>
               length (cards best @ kickers best) = 5
               \<and> (Some h = Some best \<or> (\<exists>c \<in> set combos. evaluateExactHand c = Inr best))
               \<and> (\<forall>b. Some h = Some b \<longrightarrow> handKey b \<le> handKey best)
               \<and> (\<forall>c \<in> set combos. \<forall>h. evaluateExactHand c = Inr h \<longrightarrow>
                      handKey h \<le> handKey best)"
        by blast
      from r(1) Some h True have run: "bestOfCombinations b0 (c # combos) = Inr r" by simp
      from r(2) obtain best where best: "r = Some best" by (cases r) auto
      with r(3) have facts:
        "length (cards best @ kickers best) = 5"
        "h = best \<or> (\<exists>c \<in> set combos. evaluateExactHand c = Inr best)"
        "handKey h \<le> handKey best"
        "\<forall>c \<in> set combos. \<forall>h. evaluateExactHand c = Inr h \<longrightarrow> handKey h \<le> handKey best"
        by auto
      from lt facts(3) have "handKey old \<le> handKey best" by (rule order_trans)
      then show ?thesis
        using run best Some h facts by auto
    next
      case False
      with cmp have le: "handKey h \<le> handKey old" by auto
      from Cons.IH [OF rest5 Cons.prems(2)] obtain r where
        r: "bestOfCombinations b0 combos = Inr r"
           "r = None \<longrightarrow> b0 = None \<and> combos = []"
           "\<forall>best. r = Some best \<longrightarrow>
               length (cards best @ kickers best) = 5
               \<and> (b0 = Some best \<or> (\<exists>c \<in> set combos. evaluateExactHand c = Inr best))
               \<and> (\<forall>b. b0 = Some b \<longrightarrow> handKey b \<le> handKey best)
               \<and> (\<forall>c \<in> set combos. \<forall>h. evaluateExactHand c = Inr h \<longrightarrow>
                      handKey h \<le> handKey best)"
        by blast
      from r(1) Some h False have run: "bestOfCombinations b0 (c # combos) = Inr r" by simp
      from r(2) Some obtain best where best: "r = Some best" by (cases r) auto
      with r(3) Some have facts:
        "length (cards best @ kickers best) = 5"
        "old = best \<or> (\<exists>c \<in> set combos. evaluateExactHand c = Inr best)"
        "handKey old \<le> handKey best"
        "\<forall>c \<in> set combos. \<forall>h. evaluateExactHand c = Inr h \<longrightarrow> handKey h \<le> handKey best"
        by auto
      from le facts(3) have "handKey h \<le> handKey best" by (rule order_trans)
      then show ?thesis
        using run best Some h facts by auto
    qed
  qed
qed

lemma evaluateHand_best:
  assumes "5 \<le> length cs"
  shows "\<exists>best. evaluateHand cs = Inr best
           \<and> (\<exists>c. subseq c cs \<and> length c = 5 \<and> evaluateExactHand c = Inr best)
           \<and> (\<forall>c. subseq c cs \<and> length c = 5 \<longrightarrow>
                 (\<exists>h. evaluateExactHand c = Inr h \<and> compareHands h best \<le> 0))"
proof -
  from assms have "1 \<le> (5::int)" "5 \<le> int (length cs)" by auto
  from getCombinations_subseq [OF this] obtain combos where
    combos: "getCombinations cs 5 = Some combos"
            "set combos = {c. subseq c cs \<and> int (length c) = 5}" by blast
  then have all5: "\<forall>c \<in> set combos. length c = 5" by auto
  have "subseq (take 5 cs) cs" by (metis append_take_drop_id prefix_def prefix_imp_subseq)
  with assms combos(2) have nonempty: "combos \<noteq> []" by force
  have "\<forall>b. (None :: Hand option) = Some b \<longrightarrow> length (cards b @ kickers b) = 5" by simp
  from bestOfCombinations_best [OF all5 this] nonempty obtain best where
    run: "bestOfCombinations None combos = Inr (Some best)"
    and b5: "length (cards best @ kickers best) = 5"
    and from_combo: "\<exists>c \<in> set combos. evaluateExactHand c = Inr best"
    and top: "\<forall>c \<in> set combos. \<forall>h. evaluateExactHand c = Inr h \<longrightarrow> handKey h \<le> handKey best"
    by (metis option.distinct(1) option.exhaust)
  from assms combos(1) run have ev: "evaluateHand cs = Inr best"
    by (simp add: evaluateHand_def)
  have "\<exists>h. evaluateExactHand c = Inr h \<and> compareHands h best \<le> 0"
    if c: "subseq c cs \<and> length c = 5" for c
  proof -
    from c combos(2) have mem: "c \<in> set combos" by simp
    from c evaluateExactHand_five obtain h where
      h: "evaluateExactHand c = Inr h" "length (cards h @ kickers h) = 5" by blast
    with top mem have "handKey h \<le> handKey best" by blast
    moreover from h(2) b5 have "compareHands h best \<le> 0 \<longleftrightarrow> handKey h \<le> handKey best"
      by (intro compareHands_le_iff) simp
    ultimately show ?thesis using h(1) by blast
  qed
  moreover from from_combo combos(2)
  have "\<exists>c. subseq c cs \<and> length c = 5 \<and> evaluateExactHand c = Inr best" by auto
  ultimately show ?thesis using ev by blast
qed

lemma evaluateHand_not_null:
  "evaluateHand cs \<noteq> Inl NullBestHand \<and> evaluateHand cs \<noteq> Inl CallStackExceeded"
proof (cases "5 \<le> length cs")
  case True
  from evaluateHand_best [OF this] show ?thesis by auto
next
  case False
  then show ?thesis by (simp add: evaluateHand_def)
qed

text \<open>
  C10. A list of fewer than five cards makes \<^verbatim>\<open>evaluateHand\<close> throw. A list of five or more
  cards, of any length, is accepted: the call returns a hand, that hand is the evaluation
  of five of the cards taken in their order in the list, and no five cards of the list
  evaluate to a hand that \<^verbatim>\<open>compareHands\<close> puts above it.
\<close>

theorem evaluateHand_needs_five_takes_more:
  "(length cs < 5 \<longrightarrow> evaluateHand cs = Inl NeedAtLeast5Cards)
   \<and> (5 \<le> length cs \<longrightarrow>
        (\<exists>best. evaluateHand cs = Inr best
           \<and> (\<exists>c. subseq c cs \<and> length c = 5 \<and> evaluateExactHand c = Inr best)
           \<and> (\<forall>c. subseq c cs \<and> length c = 5 \<longrightarrow>
                 (\<exists>h. evaluateExactHand c = Inr h \<and> compareHands h best \<le> 0))))"
  using evaluateHand_best [of cs] by (simp add: evaluateHand_def)

theorem evaluateHand_needs_five_takes_more_witness:
  "evaluateHand [mkCard Ace Spades, mkCard Two Hearts, mkCard Three Diamonds, mkCard Four Clubs]
     = Inl NeedAtLeast5Cards
   \<and> (\<exists>best.
        evaluateHand [mkCard Ace Spades, mkCard Two Hearts, mkCard Three Diamonds,
                      mkCard Four Clubs, mkCard Five Spades, mkCard Nine Hearts,
                      mkCard Ten Diamonds, mkCard Six Hearts] = Inr best
        \<and> (\<exists>h. evaluateExactHand [mkCard Ace Spades, mkCard Two Hearts, mkCard Three Diamonds,
                                    mkCard Four Clubs, mkCard Five Spades] = Inr h
                \<and> compareHands h best \<le> 0))"
proof -
  let ?four = "[mkCard Ace Spades, mkCard Two Hearts, mkCard Three Diamonds, mkCard Four Clubs]"
  let ?eight = "[mkCard Ace Spades, mkCard Two Hearts, mkCard Three Diamonds,
                 mkCard Four Clubs, mkCard Five Spades, mkCard Nine Hearts,
                 mkCard Ten Diamonds, mkCard Six Hearts]"
  let ?wheel = "[mkCard Ace Spades, mkCard Two Hearts, mkCard Three Diamonds,
                 mkCard Four Clubs, mkCard Five Spades]"
  have short: "evaluateHand ?four = Inl NeedAtLeast5Cards"
    using evaluateHand_needs_five_takes_more [of ?four] by simp
  have sub: "subseq ?wheel ?eight \<and> length ?wheel = 5" by simp
  have "5 \<le> length ?eight" by simp
  with evaluateHand_needs_five_takes_more [of ?eight] obtain best where
    best: "evaluateHand ?eight = Inr best"
          "\<forall>c. subseq c ?eight \<and> length c = 5 \<longrightarrow>
               (\<exists>h. evaluateExactHand c = Inr h \<and> compareHands h best \<le> 0)"
    by blast
  from best(2) sub have "\<exists>h. evaluateExactHand ?wheel = Inr h \<and> compareHands h best \<le> 0"
    by blast
  with short best(1) show ?thesis by blast
qed

subsection \<open>Conservation on whole chips\<close>

lemma sum_list_map_update:
  "i < length xs \<Longrightarrow>
   sum_list (map f (xs[i := x])) = sum_list (map f xs) - f (xs ! i) + (f x :: number)"
  by (induction xs arbitrary: i) (auto split: nat.splits)

lemma list_all_update:
  "list_all P xs \<Longrightarrow> P x \<Longrightarrow> list_all P (xs[i := x])"
  by (induction xs arbitrary: i) (auto split: nat.splits)

lemma list_all_nth: "list_all P xs \<Longrightarrow> i < length xs \<Longrightarrow> P (xs ! i)"
  by (simp add: list_all_length)

lemma findIndex_less: "findIndex P xs = Some i \<Longrightarrow> i < length xs"
  by (induction xs arbitrary: i) (auto split: if_splits)

lemma whole_min: "whole a \<Longrightarrow> whole b \<Longrightarrow> whole (min a b)"
  by (simp add: whole_def min_def)

lemma whole_diff_min: "whole a \<Longrightarrow> whole b \<Longrightarrow> whole (a - min b a)"
  by (auto simp add: whole_def min_def)

lemma performAction_frame:
  assumes "performAction room i req = Inr room1"
  shows "phase (gameState room1) = phase (gameState room)"
    and "settings room1 = settings room"
    and "length (players room1) = length (players room)"
  using assms
  by (cases "action req";
      auto simp add: performAction_def Let_def split: if_splits option.splits)+

lemma performAction_conserves:
  assumes "i < length (players room)" and "performAction room i req = Inr room1"
  shows "chipsInPlay room1 = chipsInPlay room"
  using assms
  by (cases "action req")
     (auto simp add: performAction_def chipsInPlay_def Let_def sum_list_map_update
        split: if_splits option.splits)

lemma performAction_liveBets:
  assumes i: "i < length (players room)" and run: "performAction room i req = Inr room1"
    and live: "liveBets room" and req: "wholeRequest req"
  shows "liveBets room1"
proof -
  let ?p = "players room ! i"
  from live have all: "list_all (\<lambda>p. whole (chips p) \<and> whole (currentBet p)) (players room)"
    and cov: "sum_list (map currentBet (players room)) \<le> pot (gameState room)"
    and potz: "pot (gameState room) \<in> \<int>"
    and nn: "0 \<le> tableCurrentBet (gameState room)" "tableCurrentBet (gameState room) \<in> \<int>"
            "0 \<le> minRaise (gameState room)" "whole (bigBlind (settings room))"
    by (simp_all add: liveBets_def covered_def whole_def)
  from list_all_nth [OF all i] have p: "0 \<le> chips ?p" "0 \<le> currentBet ?p"
      "chips ?p \<in> \<int>" "currentBet ?p \<in> \<int>"
    by (simp_all add: whole_def)
  show ?thesis
  proof (cases "action req")
    case Fold
    with run i all cov potz nn p show ?thesis
      by (auto simp add: performAction_def Let_def liveBets_def covered_def whole_def
            sum_list_map_update list_all_update)
  next
    case Check
    with run i all cov potz nn p show ?thesis
      by (auto simp add: performAction_def Let_def liveBets_def covered_def whole_def
            sum_list_map_update list_all_update split: if_splits)
  next
    case Call
    with run i all cov potz nn p show ?thesis
      by (auto simp add: performAction_def Let_def liveBets_def covered_def whole_def
            sum_list_map_update list_all_update split: if_splits)
  next
    case Raise
    with run i all cov potz nn p req show ?thesis
      by (auto simp add: performAction_def Let_def liveBets_def covered_def whole_def
            wholeRequest_def sum_list_map_update list_all_update
            split: if_splits option.splits)
  next
    case AllIn
    with run i all cov potz nn p show ?thesis
      by (auto simp add: performAction_def Let_def liveBets_def covered_def whole_def
            sum_list_map_update list_all_update split: if_splits)
  qed
qed

lemma awardChips_length: "length (awardChips ps ws i s r) = length ps"
  by (induction ws arbitrary: ps i) (simp_all add: Let_def)

text \<open>With an integer remainder \<open>m\<close> the extra chips are those of the indices below \<open>m\<close>.\<close>

lemma awardChips_sum:
  "\<forall>w \<in> set ws. w < length ps \<Longrightarrow>
   sum_list (map chips (awardChips ps ws i s (of_int m)))
   = sum_list (map chips ps) + of_nat (length ws) * s
     + of_int (max 0 (min (int i + int (length ws)) m - int i))"
proof (induction ws arbitrary: ps i)
  case Nil
  then show ?case by simp
next
  case (Cons w ws)
  let ?extra = "if int i < m then 1 else 0 :: int"
  let ?ps1 = "ps[w := (ps ! w)\<lparr>chips := chips (ps ! w) + s + of_int ?extra\<rparr>]"
  from Cons.prems have w: "w < length ps" and ws: "\<forall>w \<in> set ws. w < length ?ps1" by auto
  have cond: "((of_nat i :: number) < of_int m) = (int i < m)"
    by (metis of_int_less_iff of_int_of_nat_eq)
  have step: "awardChips ps (w # ws) i s (of_int m) = awardChips ?ps1 ws (i + 1) s (of_int m)"
    by (simp add: Let_def cond)
  have s1: "sum_list (map chips ?ps1) = sum_list (map chips ps) + s + of_int ?extra"
    using w by (simp add: sum_list_map_update)
  have count: "?extra + max 0 (min (int (i + 1) + int (length ws)) m - int (i + 1))
               = max 0 (min (int i + int (length (w # ws))) m - int i)"
    by auto
  have "sum_list (map chips (awardChips ps (w # ws) i s (of_int m)))
        = sum_list (map chips ?ps1) + of_nat (length ws) * s
          + of_int (max 0 (min (int (i + 1) + int (length ws)) m - int (i + 1)))"
    unfolding step by (rule Cons.IH [OF ws])
  also have "\<dots> = sum_list (map chips ps) + of_nat (length (w # ws)) * s
                 + of_int (?extra + max 0 (min (int (i + 1) + int (length ws)) m - int (i + 1)))"
    unfolding s1 by (simp add: algebra_simps)
  finally show ?case unfolding count .
qed

text \<open>
  On a whole pot \<^verbatim>\<open>distributePot\<close> with at least one winner leaves nothing in the pot and
  awards exactly the pot.
\<close>

lemma distributePot_awards_whole_pot:
  assumes pot: "whole potAmount" and ne: "ws \<noteq> []" and idx: "\<forall>w \<in> set ws. w < length ps"
  shows "fst (distributePot potAmount ws ps) = 0
         \<and> sum_list (map chips (snd (distributePot potAmount ws ps)))
           = sum_list (map chips ps) + potAmount"
proof -
  from pot obtain p where p: "potAmount = of_int p" and p0: "0 \<le> p"
    by (auto simp add: whole_def elim: Ints_cases)
  let ?n = "int (length ws)"
  from ne have n: "0 < ?n" by simp
  have nat_n: "(of_nat (length ws) :: number) = of_int ?n" by simp
  have fl: "\<lfloor>potAmount / of_nat (length ws)\<rfloor> = p div ?n"
    unfolding p nat_n by (rule floor_divide_of_int_eq)
  have "\<not> potAmount / of_nat (length ws) < 0" using p p0 by (simp add: not_less)
  then have "jsTrunc (potAmount / of_nat (length ws)) = \<lfloor>potAmount / of_nat (length ws)\<rfloor>"
    unfolding jsTrunc_def by (rule if_not_P)
  then have tr: "jsTrunc (potAmount / of_nat (length ws)) = p div ?n"
    unfolding fl .
  have "jsRem potAmount (of_nat (length ws)) = potAmount - of_int ?n * of_int (p div ?n)"
    unfolding jsRem_def tr by simp
  also have "\<dots> = of_int (p - ?n * (p div ?n))"
    unfolding p by simp
  also have "p - ?n * (p div ?n) = p mod ?n" by (simp add: minus_mult_div_eq_mod)
  finally have rem: "jsRem potAmount (of_nat (length ws)) = of_int (p mod ?n)" .
  from n have "0 \<le> p mod ?n" "p mod ?n < ?n" by simp_all
  then have extra: "max 0 (min (int 0 + ?n) (p mod ?n) - int 0) = p mod ?n" by simp
  have whole_pot: "of_int ?n * of_int (p div ?n) + (of_int (p mod ?n) :: number) = potAmount"
  proof -
    have "of_int ?n * of_int (p div ?n) + (of_int (p mod ?n) :: number)
          = of_int (?n * (p div ?n) + p mod ?n)"
      by (simp only: of_int_add of_int_mult)
    also have "?n * (p div ?n) + p mod ?n = p" by simp
    finally show ?thesis unfolding p .
  qed
  have "sum_list (map chips (awardChips ps ws 0 (of_int (p div ?n)) (of_int (p mod ?n))))
        = sum_list (map chips ps) + of_nat (length ws) * of_int (p div ?n)
          + of_int (max 0 (min (int 0 + ?n) (p mod ?n) - int 0))"
    by (rule awardChips_sum [OF idx])
  also have "\<dots> = sum_list (map chips ps)
                 + (of_int ?n * of_int (p div ?n) + of_int (p mod ?n))"
    unfolding extra nat_n by (simp only: add.assoc)
  finally have "sum_list (map chips (awardChips ps ws 0 (of_int (p div ?n)) (of_int (p mod ?n))))
                = sum_list (map chips ps) + potAmount"
    unfolding whole_pot .
  with ne fl rem show ?thesis
    by (simp add: distributePot_def Let_def)
qed

lemma evaluateAll_indices:
  "evaluateAll ps community idx = Inr hands \<Longrightarrow> map fst hands = idx"
  by (induction idx arbitrary: hands) (auto split: sum.splits)

lemma determineWinners_indices:
  assumes run: "determineWinners ps community = Inr (ws, h)"
  shows "\<forall>w \<in> set ws. w < length ps"
proof -
  define active where "active = filter (\<lambda>i. isInHand (ps ! i)) [0..<length ps]"
  have act: "\<forall>i \<in> set active. i < length ps" by (simp add: active_def)
  from run have run':
    "(if length active = 0 then Inl NoActivePlayers
      else if length active = 1 then
        (case evaluateHand (holeCards (ps ! hd active) @ community) of
           Inl e \<Rightarrow> Inl e
         | Inr hand \<Rightarrow> Inr (active, hand))
      else
        (case evaluateAll ps community active of
           Inl e \<Rightarrow> Inl e
         | Inr playerHands \<Rightarrow>
             Inr (map fst (filter (\<lambda>ph. compareHands (snd ph)
                                     (findBest (snd (hd playerHands)) (tl playerHands)) = 0)
                             playerHands),
                  findBest (snd (hd playerHands)) (tl playerHands))))
     = Inr (ws, h)"
    unfolding determineWinners_def Let_def active_def .
  have "set ws \<subseteq> set active"
  proof (cases "length active = 0")
    case True
    with run' show ?thesis by simp
  next
    case nz: False
    show ?thesis
    proof (cases "length active = 1")
      case True
      with nz run' show ?thesis by (simp split: sum.splits)
    next
      case False
      with nz run' obtain hands where
        hands: "evaluateAll ps community active = Inr hands"
        and ws: "ws = map fst (filter (\<lambda>ph. compareHands (snd ph)
                                       (findBest (snd (hd hands)) (tl hands)) = 0) hands)"
        by (simp split: sum.splits) blast
      from evaluateAll_indices [OF hands] have "set (map fst hands) = set active" by simp
      with ws show ?thesis by auto
    qed
  qed
  with act show ?thesis by blast
qed

lemma processShowdown_conserves:
  assumes "whole (pot (gameState room))"
  shows "chipsInPlay (snd (processShowdown room)) = chipsInPlay room"
proof (cases "determineWinners (players room) (communityCards (gameState room))")
  case (Inl e)
  then show ?thesis by (simp add: processShowdown_def)
next
  case (Inr r)
  then obtain ws h where r: "r = (ws, h)" by (cases r)
  with Inr determineWinners_indices have idx: "\<forall>w \<in> set ws. w < length (players room)" by blast
  show ?thesis
  proof (cases "ws = []")
    case True
    with Inr r show ?thesis
      by (simp add: processShowdown_def chipsInPlay_def Let_def distributePot_def)
  next
    case False
    from distributePot_awards_whole_pot [OF assms False idx] Inr r show ?thesis
      by (simp add: processShowdown_def chipsInPlay_def Let_def)
  qed
qed

lemma processShowdown_phase:
  "phase (gameState room) = Showdown \<Longrightarrow>
   \<not> bettingPhase (phase (gameState (snd (processShowdown room))))"
  by (auto simp add: processShowdown_def Let_def split: sum.splits prod.splits)

lemma setNextToAct_frame:
  "players (snd (snd (setNextToAct evs deck room))) = players room"
  "pot (gameState (snd (snd (setNextToAct evs deck room)))) = pot (gameState room)"
  "phase (gameState (snd (snd (setNextToAct evs deck room)))) = phase (gameState room)"
  "tableCurrentBet (gameState (snd (snd (setNextToAct evs deck room)))) = tableCurrentBet (gameState room)"
  "minRaise (gameState (snd (snd (setNextToAct evs deck room)))) = minRaise (gameState room)"
  "settings (snd (snd (setNextToAct evs deck room))) = settings room"
  by (simp_all add: setNextToAct_def Let_def)

lemma dealStreet_frame:
  "players (snd (snd (dealStreet ph n deck room))) = players room"
  "pot (gameState (snd (snd (dealStreet ph n deck room)))) = pot (gameState room)"
  "tableCurrentBet (gameState (snd (snd (dealStreet ph n deck room)))) = tableCurrentBet (gameState room)"
  "minRaise (gameState (snd (snd (dealStreet ph n deck room)))) = minRaise (gameState room)"
  "settings (snd (snd (dealStreet ph n deck room))) = settings room"
  by (simp_all add: dealStreet_def setNextToAct_frame Let_def split: sum.splits prod.splits)

lemma covered_pot_whole: "covered room \<Longrightarrow> whole (pot (gameState room))"
proof -
  assume c: "covered room"
  then have "\<forall>b \<in> set (map currentBet (players room)). 0 \<le> b"
    by (auto simp add: covered_def list_all_iff whole_def)
  then have "0 \<le> sum_list (map currentBet (players room))" by (intro sum_list_nonneg) blast
  with c show ?thesis by (simp add: covered_def whole_def)
qed

lemma covered_cong:
  "map chips (players room') = map chips (players room) \<Longrightarrow>
   map currentBet (players room') = map currentBet (players room) \<Longrightarrow>
   pot (gameState room') = pot (gameState room) \<Longrightarrow>
   covered room' = covered room"
proof -
  assume a: "map chips (players room') = map chips (players room)"
     and b: "map currentBet (players room') = map currentBet (players room)"
     and c: "pot (gameState room') = pot (gameState room)"
  have split: "list_all (\<lambda>p. whole (chips p) \<and> whole (currentBet p)) xs
        \<longleftrightarrow> list_all whole (map chips xs) \<and> list_all whole (map currentBet xs)"
    for xs :: "Player list"
    by (induction xs) auto
  show ?thesis
    unfolding covered_def split a b c ..
qed

lemma resetLastAction_maps:
  "map chips (map (\<lambda>p. if isInHand p then p\<lparr>lastAction := None\<rparr> else p) ps) = map chips ps"
  "map currentBet (map (\<lambda>p. if isInHand p then p\<lparr>lastAction := None\<rparr> else p) ps) = map currentBet ps"
  by (induction ps) auto

lemma resetLastAction_comp:
  "chips \<circ> (\<lambda>p. if isInHand p then p\<lparr>lastAction := None\<rparr> else p) = chips"
  "currentBet \<circ> (\<lambda>p. if isInHand p then p\<lparr>lastAction := None\<rparr> else p) = currentBet"
  by (auto simp add: fun_eq_iff)

lemma advanceHand_conserves:
  assumes "phase (gameState room) = River \<longrightarrow> whole (pot (gameState room))"
  shows "chipsInPlay (snd (snd (advanceHand deck room))) = chipsInPlay room"
proof (cases "phase (gameState room) = River")
  case True
  with assms have "whole (pot (gameState room))" by simp
  with True show ?thesis
    by (simp add: advanceHand_def Let_def processShowdown_conserves)
       (simp add: chipsInPlay_def resetLastAction_comp)
next
  case False
  then show ?thesis
    by (cases "phase (gameState room)")
       (simp_all add: advanceHand_def Let_def chipsInPlay_def dealStreet_frame
          setNextToAct_frame resetLastAction_comp)
qed

lemma advanceHand_invariant:
  assumes "handInvariant room"
  shows "handInvariant (snd (snd (advanceHand deck room)))"
proof -
  let ?ps = "map (\<lambda>p. if isInHand p then p\<lparr>lastAction := None\<rparr> else p) (players room)"
  let ?gs = "(gameState room)\<lparr>tableCurrentBet := 0, minRaise := bigBlind (settings room)\<rparr>"
  let ?room1 = "room\<lparr>players := ?ps, gameState := ?gs\<rparr>"
  have cov: "covered ?room1 = covered room"
    by (rule covered_cong) (simp_all add: resetLastAction_maps)
  have live1: "liveBets ?room1" if "bettingPhase (phase (gameState room))"
    using that assms cov by (simp add: handInvariant_def liveBets_def whole_def)
  have street: "handInvariant (snd (snd (dealStreet ph n deck ?room1)))"
    if "bettingPhase (phase (gameState room))" for ph n
  proof -
    have "covered (snd (snd (dealStreet ph n deck ?room1))) = covered ?room1"
      by (rule covered_cong) (simp_all add: dealStreet_frame)
    with live1 [OF that] show ?thesis
      by (simp add: handInvariant_def liveBets_def dealStreet_frame)
  qed
  show ?thesis
  proof (cases "phase (gameState room)")
    case Waiting
    then show ?thesis
      by (simp add: advanceHand_def Let_def handInvariant_def setNextToAct_frame)
  next
    case PreFlop
    with street [of Flop 3] show ?thesis by (simp add: advanceHand_def Let_def)
  next
    case Flop
    with street [of Turn 1] show ?thesis by (simp add: advanceHand_def Let_def)
  next
    case Turn
    with street [of River 1] show ?thesis by (simp add: advanceHand_def Let_def)
  next
    case River
    then show ?thesis
      by (simp add: advanceHand_def Let_def handInvariant_def processShowdown_phase)
  next
    case Showdown
    then show ?thesis
      by (simp add: advanceHand_def Let_def handInvariant_def setNextToAct_frame)
  next
    case HandComplete
    then show ?thesis
      by (simp add: advanceHand_def Let_def handInvariant_def setNextToAct_frame)
  qed
qed

lemma processPlayerAction_step:
  assumes inv: "handInvariant room" and req: "wholeRequest req"
    and run: "processPlayerAction deck room req = (result, deck', room')"
  shows "chipsInPlay room' = chipsInPlay room \<and> handInvariant room'"
proof (cases "findIndex (\<lambda>p. ident p = playerId req) (players room)")
  case None
  with run inv show ?thesis by (simp add: processPlayerAction_def)
next
  case (Some i)
  then have i: "i < length (players room)" by (rule findIndex_less)
  show ?thesis
  proof (cases "\<not> isInHand (players room ! i) \<or> currentPlayerIndex (gameState room) \<noteq> i")
    case True
    with Some run inv show ?thesis by (auto simp add: processPlayerAction_def Let_def)
  next
    case turn: False
    show ?thesis
    proof (cases "performAction room i req")
      case (Inl e)
      with Some turn run inv show ?thesis by (auto simp add: processPlayerAction_def Let_def)
    next
      case (Inr room1)
      note frame = performAction_frame [OF Inr]
      from performAction_conserves [OF i Inr] have c1: "chipsInPlay room1 = chipsInPlay room" .
      have inv1: "handInvariant room1"
        using inv performAction_liveBets [OF i Inr _ req] frame(1)
        by (simp add: handInvariant_def)
      show ?thesis
      proof (cases "shouldAdvanceHand room1")
        case True
        with Some turn Inr run have r': "room' = snd (snd (advanceHand deck room1))"
          by (auto simp add: processPlayerAction_def Let_def split: prod.splits sum.splits)
        have "phase (gameState room1) = River \<longrightarrow> whole (pot (gameState room1))"
          using inv1 covered_pot_whole [of room1]
          by (auto simp add: handInvariant_def liveBets_def)
        from advanceHand_conserves [OF this, of deck] advanceHand_invariant [OF inv1, of deck]
             r' c1
        show ?thesis by simp
      next
        case False
        with Some turn Inr run obtain idx where
          r': "room' = room1\<lparr>gameState := (gameState room1)\<lparr>currentPlayerIndex := idx\<rparr>\<rparr>"
          by (auto simp add: processPlayerAction_def Let_def)
        have "covered room' = covered room1"
          by (rule covered_cong) (simp_all add: r')
        with inv1 c1 r' show ?thesis
          by (simp add: handInvariant_def liveBets_def chipsInPlay_def)
      qed
    qed
  qed
qed

lemma dealRound_maps:
  "map chips (fst (dealRound ps d)) = map chips ps"
  "map currentBet (fst (dealRound ps d)) = map currentBet ps"
  by (induction ps arbitrary: d) (auto simp add: Let_def split: list.splits)

lemma dealHoleCards_maps:
  "map chips (fst (dealHoleCards ps d)) = map chips ps"
  "map currentBet (fst (dealHoleCards ps d)) = map currentBet ps"
  by (auto simp add: dealHoleCards_def dealRound_maps split: prod.splits option.splits
        dest: arg_cong [where f = fst])

lemma postSmallBlind_frame:
  "phase (gameState (postSmallBlind room)) = phase (gameState room)"
  "tableCurrentBet (gameState (postSmallBlind room)) = tableCurrentBet (gameState room)"
  "minRaise (gameState (postSmallBlind room)) = minRaise (gameState room)"
  "settings (postSmallBlind room) = settings room"
  by (simp_all add: postSmallBlind_def Let_def)

lemma postBigBlind_frame:
  "phase (gameState (postBigBlind room)) = phase (gameState room)"
  "tableCurrentBet (gameState (postBigBlind room)) = tableCurrentBet (gameState room)"
  "minRaise (gameState (postBigBlind room)) = minRaise (gameState room)"
  "settings (postBigBlind room) = settings room"
  by (simp_all add: postBigBlind_def Let_def)

lemma postSmallBlind_conserves: "chipsInPlay (postSmallBlind room) = chipsInPlay room"
  by (simp add: postSmallBlind_def Let_def chipsInPlay_def sum_list_map_update)

lemma postBigBlind_conserves: "chipsInPlay (postBigBlind room) = chipsInPlay room"
  by (simp add: postBigBlind_def Let_def chipsInPlay_def sum_list_map_update)

lemma postSmallBlind_covered:
  assumes "covered room" and "whole (smallBlind (settings room))"
  shows "covered (postSmallBlind room)"
proof (cases "smallBlindIndex (gameState room) < length (players room)")
  case True
  from assms(1) have all: "list_all (\<lambda>p. whole (chips p) \<and> whole (currentBet p)) (players room)"
    by (simp add: covered_def)
  from list_all_nth [OF all True] have p:
    "whole (chips (players room ! smallBlindIndex (gameState room)))"
    "whole (currentBet (players room ! smallBlindIndex (gameState room)))" by simp_all
  from p(1) assms(2) have "whole (min (smallBlind (settings room))
                                      (chips (players room ! smallBlindIndex (gameState room))))"
    and "whole (chips (players room ! smallBlindIndex (gameState room))
                - min (smallBlind (settings room))
                      (chips (players room ! smallBlindIndex (gameState room))))"
    by (simp_all add: whole_min whole_diff_min)
  with p(2) assms True all show ?thesis
    by (auto simp add: postSmallBlind_def Let_def covered_def sum_list_map_update
          list_all_update whole_def)
next
  case False
  with assms show ?thesis by (simp add: postSmallBlind_def Let_def)
qed

lemma postBigBlind_covered:
  assumes "covered room" and "whole (bigBlind (settings room))"
  shows "covered (postBigBlind room)"
proof (cases "bigBlindIndex (gameState room) < length (players room)")
  case True
  from assms(1) have all: "list_all (\<lambda>p. whole (chips p) \<and> whole (currentBet p)) (players room)"
    by (simp add: covered_def)
  from list_all_nth [OF all True] have p:
    "whole (chips (players room ! bigBlindIndex (gameState room)))"
    "whole (currentBet (players room ! bigBlindIndex (gameState room)))" by simp_all
  from p(1) assms(2) have "whole (min (bigBlind (settings room))
                                      (chips (players room ! bigBlindIndex (gameState room))))"
    and "whole (chips (players room ! bigBlindIndex (gameState room))
                - min (bigBlind (settings room))
                      (chips (players room ! bigBlindIndex (gameState room))))"
    by (simp_all add: whole_min whole_diff_min)
  with p(2) assms True all show ?thesis
    by (auto simp add: postBigBlind_def Let_def covered_def sum_list_map_update
          list_all_update whole_def)
next
  case False
  with assms show ?thesis by (simp add: postBigBlind_def Let_def)
qed

text \<open>Posting the blinds moves chips from the two stacks to the pot and loses none.\<close>

lemma postBlinds_conserves: "chipsInPlay (postBlinds room) = chipsInPlay room"
  by (simp add: postBlinds_def postBigBlind_conserves postSmallBlind_conserves)

lemma postBlinds_liveBets:
  assumes "liveBets room" and "whole (smallBlind (settings room))"
  shows "liveBets (postBlinds room)"
  using assms postBigBlind_covered [of "postSmallBlind room"] postSmallBlind_covered [of room]
  by (simp add: liveBets_def postBlinds_def postSmallBlind_frame postBigBlind_frame)

lemma postBlinds_phase: "phase (gameState (postBlinds room)) = phase (gameState room)"
  by (simp add: postBlinds_def postSmallBlind_frame postBigBlind_frame)

lemma startNewHand_step:
  assumes ok: "handStartOk room"
    and run: "startNewHand shuffled room = (result, deck, room')"
  shows "chipsInPlay room' = sum_list (map chips (players room)) \<and> handInvariant room'"
proof -
  let ?reset = "\<lambda>p. if isActive p
                     then p\<lparr>isInHand := True, holeCards := [], currentBet := 0,
                            totalBet := 0, lastAction := None\<rparr>
                     else p"
  let ?ps0 = "map ?reset (players room)"
  let ?gs0 = "(gameState room)\<lparr>phase := PreFlop, communityCards := [], pot := 0,
                 tableCurrentBet := bigBlind (settings room),
                 minRaise := bigBlind (settings room),
                 isHandActive := True,
                 handNumber := handNumber (gameState room) + 1,
                 winners := []\<rparr>"
  obtain ps1 dealt where d: "dealHoleCards ?ps0 shuffled = (ps1, dealt)"
    by (cases "dealHoleCards ?ps0 shuffled")
  let ?room0 = "room\<lparr>players := ps1, gameState := ?gs0\<rparr>"
  from ok have all: "list_all (\<lambda>p. whole (chips p) \<and> (isActive p \<or> currentBet p = 0)) (players room)"
    and blinds: "whole (smallBlind (settings room))" "whole (bigBlind (settings room))"
    by (simp_all add: handStartOk_def)
  from d have ps1: "ps1 = fst (dealHoleCards ?ps0 shuffled)" by simp
  have chips0: "map chips ps1 = map chips (players room)"
    unfolding ps1 by (simp add: dealHoleCards_maps comp_def)
  have bets0: "map currentBet ps1 = map (\<lambda>p. 0) (players room)"
    unfolding ps1 using all by (auto simp add: dealHoleCards_maps list_all_iff)
  have nonneg: "list_all (\<lambda>p. whole (chips p) \<and> whole (currentBet p)) ps1"
  proof -
    have "\<forall>c \<in> set (map chips ps1). whole c" using all unfolding chips0
      by (auto simp add: list_all_iff)
    moreover have "\<forall>b \<in> set (map currentBet ps1). whole b" unfolding bets0
      by (auto simp add: whole_def)
    ultimately show ?thesis by (auto simp add: list_all_iff)
  qed
  have "sum_list (map currentBet ps1) = 0" unfolding bets0 by simp
  with nonneg blinds have live0: "liveBets ?room0"
    by (simp add: liveBets_def covered_def whole_def)
  have total0: "chipsInPlay ?room0 = sum_list (map chips (players room))"
    by (simp add: chipsInPlay_def chips0)
  have inv0: "handInvariant ?room0" using live0 by (simp add: handInvariant_def)
  show ?thesis
  proof (cases dealt)
    case None
    with run d have "room' = ?room0" by (simp add: startNewHand_def Let_def)
    with total0 inv0 show ?thesis by simp
  next
    case (Some remainingDeck)
    let ?room2 = "postBlinds ?room0"
    have total2: "chipsInPlay ?room2 = sum_list (map chips (players room))"
      using total0 by (simp add: postBlinds_conserves)
    have live2: "liveBets ?room2"
      using live0 blinds by (intro postBlinds_liveBets) simp_all
    show ?thesis
    proof (cases "length (players ?room2) = 0")
      case True
      with run d Some have "room' = ?room2" by (simp add: startNewHand_def Let_def)
      with total2 live2 show ?thesis by (simp add: handInvariant_def)
    next
      case False
      with run d Some obtain idx where
        r': "room' = ?room2\<lparr>gameState := (gameState ?room2)\<lparr>currentPlayerIndex := idx\<rparr>\<rparr>"
        by (simp add: startNewHand_def Let_def) blast
      have "covered room' = covered ?room2"
        by (rule covered_cong) (simp_all add: r')
      with total2 live2 r' show ?thesis
        by (simp add: handInvariant_def liveBets_def chipsInPlay_def)
    qed
  qed
qed

text \<open>
  What the engine does keep: a hand that starts on whole chips and receives only integer
  amounts conserves the chips in every state it reaches, in exact arithmetic.
\<close>

lemma whole_chips_conserved:
  "reachable start s \<Longrightarrow> handStartOk start \<Longrightarrow>
   chipsInPlay (snd s) = sum_list (map chips (players start)) \<and> handInvariant (snd s)"
proof (induction rule: reachable.induct)
  case (started shuffled result deck room)
  from startNewHand_step [OF started(2) started(1)] show ?case by simp
next
  case (acted deck room req result deck' room')
  from acted.IH [OF acted.prems] have "handInvariant room"
    and "chipsInPlay room = sum_list (map chips (players start))" by simp_all
  with processPlayerAction_step [OF _ acted.hyps(2) acted.hyps(3)] show ?case by simp
qed

subsection \<open>Chips created on a fractional pot\<close>

text \<open>
  C2, at the failing input. Heads-up with 1000 chips each, A raises by 20.5, an amount the
  request schema accepts, and B folds. Up to the river the stacks and the pot add up to
  the 2000 chips the hand started with; the pot holds 60.5. At the showdown
  \<^verbatim>\<open>distributePot\<close> computes the share \<open>\<lfloor>60.5\<rfloor> = 60\<close> and the remainder \<open>60.5 % 1 = 0.5\<close>,
  and gives the first winner one extra chip because \<open>0 < 0.5\<close>: A is awarded 61 chips out
  of a pot of 60.5, and the stacks then add up to 2000.5.
\<close>

theorem half_chip_created_at_showdown:
  "sum_list (map chips (players (headsUp 1000 1000))) = 2000
   \<and> phase (gameState (snd halfChipRiver)) = River
   \<and> map chips (players (snd halfChipRiver)) = [1919 / 2, 980]
   \<and> pot (gameState (snd halfChipRiver)) = 121 / 2
   \<and> chipsInPlay (snd halfChipRiver) = 2000
   \<and> map chips (snd (distributePot (121 / 2) [0] (players (snd halfChipRiver))))
       = [1919 / 2 + 61, 980]
   \<and> phase (gameState (snd (act halfChipRiver (checkRequest ''A'')))) = HandComplete
   \<and> winners (gameState (snd (act halfChipRiver (checkRequest ''A'')))) = [''A'']
   \<and> pot (gameState (snd (act halfChipRiver (checkRequest ''A'')))) = 0
   \<and> map chips (players (snd (act halfChipRiver (checkRequest ''A'')))) = [2041 / 2, 980]
   \<and> chipsInPlay (snd (act halfChipRiver (checkRequest ''A''))) = 2000 + 1 / 2"
  by code_simp

end
